theory Spec2Isabelle
  imports Main "HOL-Library.Sublist" "HOL-Library.AList" "HOL-Library.Multiset"
begin

section \<open>Values, objects and HTTP responses\<close>

text \<open>
  The server is TypeScript on Express, Zod, Drizzle and PostgreSQL. Request bodies, rows
  and response bodies are JSON values at run time. A JavaScript object is an association
  list from property names to values; \<open>map_of\<close> reads a property and yields \<open>None\<close> for
  \<open>undefined\<close>. JSON numbers are modelled as integers (the program stores ages and
  counts only); a timestamp in a row is the number of its instant. A character of a
  string stands for one character of the text.
\<close>

datatype json =
    JNull
  | JBool bool
  | JNum int
  | JStr string
  | JArr "json list"
  | JObj "(string \<times> json) list"

type_synonym obj = "(string \<times> json) list"

text \<open>\<open>row.key\<close> for a selected row: SQL NULL and a column that is not there read as null.\<close>

definition col :: "obj \<Rightarrow> string \<Rightarrow> json" where
  "col r k = (case map_of r k of Some v \<Rightarrow> v | None \<Rightarrow> JNull)"

text \<open>
  An Express response: the status code and the JSON body. \<open>res.json(undefined)\<close> sends
  no body, which is \<open>None\<close>.
\<close>

record response =
  statusCode :: nat
  body :: "json option"

definition message :: "string \<Rightarrow> json" where
  "message m = JObj [(''message'', JStr m)]"

section \<open>Strings: number formatting and SQL patterns\<close>

definition digit :: "nat \<Rightarrow> char" where
  "digit d = ''0123456789'' ! d"

text \<open>\<open>Number.prototype.toString()\<close> on a non-negative integer: decimal, no leading zero.\<close>

function toString :: "nat \<Rightarrow> string" where
  "toString n = (if n < 10 then [digit n] else toString (n div 10) @ [digit (n mod 10)])"
  by pat_completeness auto
termination
  by (relation "measure id") auto

declare toString.simps [simp del]

text \<open>\<open>String.prototype.padStart(n, c)\<close> with a one-character filler.\<close>

definition padStart :: "nat \<Rightarrow> char \<Rightarrow> string \<Rightarrow> string" where
  "padStart n c s = replicate (n - length s) c @ s"

text \<open>Reading a decimal numeral back; used to show that formatting loses nothing.\<close>

definition digit_val :: "char \<Rightarrow> nat" where
  "digit_val c = (case map_of (zip ''0123456789'' [0 ..< 10]) c of Some d \<Rightarrow> d | None \<Rightarrow> 0)"

definition decimal_val :: "string \<Rightarrow> nat" where
  "decimal_val s = foldl (\<lambda>a c. 10 * a + digit_val c) 0 s"

text \<open>
  PostgreSQL \<open>LIKE\<close>: in the pattern \<open>%\<close> matches any run of characters, \<open>_\<close> any one
  character, and a backslash takes the next pattern character literally. A pattern that
  ends in a lone backslash is an error in PostgreSQL; the patterns of this program end
  in \<open>%\<close>, and the function answers \<open>False\<close> there.
\<close>

fun like_match :: "string \<Rightarrow> string \<Rightarrow> bool" where
  "like_match [] [] = True"
| "like_match [] (c # s) = False"
| "like_match (p # ps) [] = (p = CHR ''%'' \<and> like_match ps [])"
| "like_match (p # ps) (c # s) =
     (if p = CHR ''%'' then like_match ps (c # s) \<or> like_match (p # ps) s
      else if p = CHR ''_'' then like_match ps s
      else if p = CHR 0x5C then (case ps of [] \<Rightarrow> False | q # qs \<Rightarrow> c = q \<and> like_match qs s)
      else c = p \<and> like_match ps s)"

text \<open>
  \<open>ILIKE\<close>: PostgreSQL lowers the pattern and the text, character by character, as the
  locale of the database says, and then matches as \<open>LIKE\<close> does. The locale is not part
  of the program, so its lowering \<open>lc\<close> is a parameter.
\<close>

definition ilike_match :: "(char \<Rightarrow> char) \<Rightarrow> string \<Rightarrow> string \<Rightarrow> bool" where
  "ilike_match lc p s = like_match (map lc p) (map lc s)"

text \<open>The characters with a special meaning in a \<open>LIKE\<close> pattern.\<close>

definition like_meta :: "char \<Rightarrow> bool" where
  "like_meta c = (c = CHR ''%'' \<or> c = CHR ''_'' \<or> c = CHR 0x5C)"

section \<open>The schema (shared/schema.ts)\<close>

text \<open>
  A Drizzle table is a list of column descriptions. The insert validators are derived
  from them by \<open>createInsertSchema\<close>, and the database enforces them on every write.
\<close>

datatype coltype = PgText | PgVarchar | PgInteger | PgBoolean | PgDate | PgTimestamp | PgEnum "string list"

datatype coldefault = NoDefault | GenRandomUuid | DefaultNow | DefaultValue json

datatype tname = Users | Patients | HealthRecords | Diseases | DiseaseCases | HealthAlerts

record column =
  ckey :: string
  ctype :: coltype
  isNotNull :: bool
  hasDefault :: coldefault
  isPrimaryKey :: bool
  isUnique :: bool
  refersTo :: "tname option"

record table =
  tname :: tname
  columns :: "column list"

definition column_of :: "coltype \<Rightarrow> string \<Rightarrow> column" where
  "column_of t k =
     \<lparr>ckey = k, ctype = t, isNotNull = False, hasDefault = NoDefault,
      isPrimaryKey = False, isUnique = False, refersTo = None\<rparr>"

definition notNull :: "column \<Rightarrow> column" where
  "notNull c = c\<lparr>isNotNull := True\<rparr>"

definition primaryKey :: "column \<Rightarrow> column" where
  "primaryKey c = c\<lparr>isPrimaryKey := True, isNotNull := True\<rparr>"

definition unique_col :: "column \<Rightarrow> column" where
  "unique_col c = c\<lparr>isUnique := True\<rparr>"

definition default_col :: "coldefault \<Rightarrow> column \<Rightarrow> column" where
  "default_col v c = c\<lparr>hasDefault := v\<rparr>"

definition references :: "tname \<Rightarrow> column \<Rightarrow> column" where
  "references t c = c\<lparr>refersTo := Some t\<rparr>"

definition healthStatusEnum :: "string list" where
  "healthStatusEnum = [''healthy'', ''under_treatment'', ''critical'', ''recovered'']"

definition genderEnum :: "string list" where
  "genderEnum = [''male'', ''female'', ''other'']"

definition alertSeverityEnum :: "string list" where
  "alertSeverityEnum = [''low'', ''medium'', ''high'', ''critical'']"

definition diseaseTypeEnum :: "string list" where
  "diseaseTypeEnum = [''infectious'', ''non_infectious'', ''chronic'', ''acute'']"

definition users :: table where
  "users = \<lparr>tname = Users, columns =
    [default_col GenRandomUuid (primaryKey (column_of PgVarchar ''id'')),
     unique_col (notNull (column_of PgText ''username'')),
     notNull (column_of PgText ''password''),
     notNull (column_of PgText ''name''),
     default_col (DefaultValue (JStr ''health_worker'')) (notNull (column_of PgText ''role'')),
     notNull (default_col DefaultNow (column_of PgTimestamp ''createdAt''))]\<rparr>"

definition patients :: table where
  "patients = \<lparr>tname = Patients, columns =
    [default_col GenRandomUuid (primaryKey (column_of PgVarchar ''id'')),
     unique_col (notNull (column_of PgText ''patientId'')),
     notNull (column_of PgText ''name''),
     notNull (column_of PgInteger ''age''),
     notNull (column_of (PgEnum genderEnum) ''gender''),
     column_of PgText ''phone'',
     column_of PgText ''address'',
     notNull (column_of PgText ''district''),
     column_of PgText ''workplace'',
     column_of PgText ''employerName'',
     column_of PgText ''emergencyContact'',
     column_of PgText ''emergencyPhone'',
     default_col (DefaultValue (JStr ''healthy'')) (notNull (column_of (PgEnum healthStatusEnum) ''healthStatus'')),
     notNull (default_col DefaultNow (column_of PgTimestamp ''registeredAt'')),
     column_of PgDate ''lastCheckup'',
     references Users (column_of PgVarchar ''registeredBy'')]\<rparr>"

definition healthRecords :: table where
  "healthRecords = \<lparr>tname = HealthRecords, columns =
    [default_col GenRandomUuid (primaryKey (column_of PgVarchar ''id'')),
     notNull (references Patients (column_of PgVarchar ''patientId'')),
     notNull (column_of PgDate ''checkupDate''),
     column_of PgText ''symptoms'',
     column_of PgText ''diagnosis'',
     column_of PgText ''treatment'',
     column_of PgText ''medications'',
     column_of PgText ''notes'',
     default_col (DefaultValue (JBool False)) (column_of PgBoolean ''followupRequired''),
     column_of PgDate ''followupDate'',
     references Users (column_of PgVarchar ''createdBy''),
     notNull (default_col DefaultNow (column_of PgTimestamp ''createdAt''))]\<rparr>"

definition diseases :: table where
  "diseases = \<lparr>tname = Diseases, columns =
    [default_col GenRandomUuid (primaryKey (column_of PgVarchar ''id'')),
     unique_col (notNull (column_of PgText ''name'')),
     notNull (column_of (PgEnum diseaseTypeEnum) ''type''),
     column_of PgText ''description'',
     column_of PgText ''symptoms'',
     default_col (DefaultValue (JBool False)) (column_of PgBoolean ''infectious''),
     default_col (DefaultValue (JBool False)) (column_of PgBoolean ''reportable'')]\<rparr>"

definition diseaseCases :: table where
  "diseaseCases = \<lparr>tname = DiseaseCases, columns =
    [default_col GenRandomUuid (primaryKey (column_of PgVarchar ''id'')),
     notNull (references Patients (column_of PgVarchar ''patientId'')),
     notNull (references Diseases (column_of PgVarchar ''diseaseId'')),
     notNull (column_of PgDate ''diagnosisDate''),
     default_col (DefaultValue (JStr ''active'')) (notNull (column_of PgText ''status'')),
     default_col (DefaultValue (JStr ''mild'')) (notNull (column_of PgText ''severity'')),
     column_of PgText ''notes'',
     notNull (default_col DefaultNow (column_of PgTimestamp ''reportedAt'')),
     references Users (column_of PgVarchar ''reportedBy'')]\<rparr>"

definition healthAlerts :: table where
  "healthAlerts = \<lparr>tname = HealthAlerts, columns =
    [default_col GenRandomUuid (primaryKey (column_of PgVarchar ''id'')),
     notNull (column_of PgText ''title''),
     notNull (column_of PgText ''description''),
     notNull (column_of (PgEnum alertSeverityEnum) ''severity''),
     column_of PgText ''district'',
     references Diseases (column_of PgVarchar ''diseaseId''),
     default_col (DefaultValue (JNum 0)) (column_of PgInteger ''affectedCount''),
     default_col (DefaultValue (JBool True)) (column_of PgBoolean ''isActive''),
     notNull (default_col DefaultNow (column_of PgTimestamp ''createdAt'')),
     references Users (column_of PgVarchar ''createdBy'')]\<rparr>"

definition all_tables :: "table list" where
  "all_tables = [users, patients, healthRecords, diseases, diseaseCases, healthAlerts]"

subsection \<open>Insert validators\<close>

text \<open>
  \<open>createInsertSchema\<close> (drizzle-zod) turns each column into a Zod field: text, varchar
  and date columns are strings, integer columns are 32-bit integers, enum columns take
  one of their labels, and a timestamp column takes a \<open>Date\<close> object, which no JSON
  value is. A column that is nullable or has a default is optional; a nullable column
  also takes null. \<open>omit\<close> removes fields from the shape.
\<close>

datatype zkind = ZString | ZInt | ZBoolean | ZEnum "string list" | ZDate

record zfield =
  zkey :: string
  zkind :: zkind
  zoptional :: bool
  znullable :: bool

definition zod_of_column :: "column \<Rightarrow> zfield" where
  "zod_of_column c =
     \<lparr>zkey = ckey c,
      zkind = (case ctype c of
                 PgText \<Rightarrow> ZString | PgVarchar \<Rightarrow> ZString | PgDate \<Rightarrow> ZString
               | PgInteger \<Rightarrow> ZInt | PgBoolean \<Rightarrow> ZBoolean
               | PgTimestamp \<Rightarrow> ZDate | PgEnum ls \<Rightarrow> ZEnum ls),
      zoptional = (\<not> isNotNull c \<or> hasDefault c \<noteq> NoDefault),
      znullable = (\<not> isNotNull c)\<rparr>"

definition createInsertSchema :: "table \<Rightarrow> zfield list" where
  "createInsertSchema t = map zod_of_column (columns t)"

definition omit :: "string list \<Rightarrow> zfield list \<Rightarrow> zfield list" where
  "omit ks shape = filter (\<lambda>f. zkey f \<notin> set ks) shape"

definition insertUserSchema :: "zfield list" where
  "insertUserSchema = omit [''id'', ''createdAt''] (createInsertSchema users)"

definition insertPatientSchema :: "zfield list" where
  "insertPatientSchema = omit [''id'', ''patientId'', ''registeredAt''] (createInsertSchema patients)"

definition insertHealthRecordSchema :: "zfield list" where
  "insertHealthRecordSchema = omit [''id'', ''createdAt''] (createInsertSchema healthRecords)"

definition insertDiseaseSchema :: "zfield list" where
  "insertDiseaseSchema = omit [''id''] (createInsertSchema diseases)"

definition insertDiseaseCaseSchema :: "zfield list" where
  "insertDiseaseCaseSchema = omit [''id'', ''reportedAt''] (createInsertSchema diseaseCases)"

definition insertHealthAlertSchema :: "zfield list" where
  "insertHealthAlertSchema = omit [''id'', ''createdAt''] (createInsertSchema healthAlerts)"

text \<open>
  A Zod issue: the path of the offending value (the field name, or empty for the payload
  itself) and the issue code. A ZodError carries every issue found, not the first only.
\<close>

record zissue =
  path :: "string list"
  code :: string

definition int4 :: "int \<Rightarrow> bool" where
  "int4 n = (- 2147483648 \<le> n \<and> n \<le> 2147483647)"

fun kind_issues :: "zkind \<Rightarrow> json \<Rightarrow> string list" where
  "kind_issues ZString (JStr s) = []"
| "kind_issues ZInt (JNum n) =
     (if n < - 2147483648 then [''too_small''] else if 2147483647 < n then [''too_big''] else [])"
| "kind_issues ZBoolean (JBool b) = []"
| "kind_issues (ZEnum ls) (JStr s) = (if s \<in> set ls then [] else [''invalid_enum_value''])"
| "kind_issues k v = [''invalid_type'']"

definition field_issues :: "obj \<Rightarrow> zfield \<Rightarrow> zissue list" where
  "field_issues data f =
     map (\<lambda>c. \<lparr>path = [zkey f], code = c\<rparr>)
       (case map_of data (zkey f) of
          None \<Rightarrow> if zoptional f then [] else [''invalid_type'']
        | Some JNull \<Rightarrow> if znullable f then [] else [''invalid_type'']
        | Some v \<Rightarrow> kind_issues (zkind f) v)"

text \<open>The parsed value keeps the shape's keys that the payload has; any other key is stripped.\<close>

definition strip :: "zfield list \<Rightarrow> obj \<Rightarrow> obj" where
  "strip shape data =
     List.map_filter (\<lambda>f. map_option (Pair (zkey f)) (map_of data (zkey f))) shape"

datatype error =
    ZodError "zissue list"
  | InvalidInput
  | NotNullViolation
  | UniqueViolation
  | ForeignKeyViolation
  | NoValuesToSet

definition zparse :: "zfield list \<Rightarrow> json \<Rightarrow> error + obj" where
  "zparse shape v =
     (case v of
        JObj data \<Rightarrow>
          (let issues = concat (map (field_issues data) shape)
           in if issues = [] then Inr (strip shape data) else Inl (ZodError issues))
      | _ \<Rightarrow> Inl (ZodError [\<lparr>path = [], code = ''invalid_type''\<rparr>]))"

section \<open>The database\<close>

text \<open>
  The state of the program is the content of its six tables, each a list of rows. What
  the database and its driver supply on a write is a parameter: the value
  \<open>gen_random_uuid()\<close> gives, the value of \<open>now()\<close>, PostgreSQL's reading of a date, an
  integer and a boolean literal (\<open>None\<close> when the text is none; a date is returned as
  PostgreSQL prints it back), and the text the driver sends for an array or an object.
  The connection itself is taken to work: a query fails only for a value or constraint
  that the driver or the database refuses.
\<close>

record database =
  t_users :: "obj list"
  t_patients :: "obj list"
  t_healthRecords :: "obj list"
  t_diseases :: "obj list"
  t_diseaseCases :: "obj list"
  t_healthAlerts :: "obj list"

record env =
  uuid :: string
  now :: int
  parseDate :: "string \<Rightarrow> string option"
  parseInteger :: "string \<Rightarrow> int option"
  parseBoolean :: "string \<Rightarrow> bool option"
  serialize :: "json \<Rightarrow> string"

fun rows :: "database \<Rightarrow> tname \<Rightarrow> obj list" where
  "rows d Users = t_users d"
| "rows d Patients = t_patients d"
| "rows d HealthRecords = t_healthRecords d"
| "rows d Diseases = t_diseases d"
| "rows d DiseaseCases = t_diseaseCases d"
| "rows d HealthAlerts = t_healthAlerts d"

fun put_rows :: "tname \<Rightarrow> obj list \<Rightarrow> database \<Rightarrow> database" where
  "put_rows Users rs d = d\<lparr>t_users := rs\<rparr>"
| "put_rows Patients rs d = d\<lparr>t_patients := rs\<rparr>"
| "put_rows HealthRecords rs d = d\<lparr>t_healthRecords := rs\<rparr>"
| "put_rows Diseases rs d = d\<lparr>t_diseases := rs\<rparr>"
| "put_rows DiseaseCases rs d = d\<lparr>t_diseaseCases := rs\<rparr>"
| "put_rows HealthAlerts rs d = d\<lparr>t_healthAlerts := rs\<rparr>"

text \<open>
  The driver sends every value as text: a string as it is, a number in decimal, a
  boolean as \<open>true\<close> or \<open>false\<close>.
\<close>

definition show_int :: "int \<Rightarrow> string" where
  "show_int n = (if n < 0 then CHR ''-'' # toString (nat (- n)) else toString (nat n))"

fun driver_text :: "env \<Rightarrow> json \<Rightarrow> string" where
  "driver_text e (JStr s) = s"
| "driver_text e (JNum n) = show_int n"
| "driver_text e (JBool b) = (if b then ''true'' else ''false'')"
| "driver_text e v = serialize e v"

text \<open>
  What a column stores for a value it is sent, \<open>None\<close> when the value is refused. Null
  is stored as null. A timestamp column asks the value for \<open>toISOString\<close>, which no JSON
  value has, so Drizzle throws. The other columns read the text the driver sends:
  a text column keeps it, an integer, boolean or date column parses it, an enum column
  takes it when it is one of the labels.
\<close>

fun coerce :: "env \<Rightarrow> coltype \<Rightarrow> json \<Rightarrow> json option" where
  "coerce e t JNull = Some JNull"
| "coerce e PgTimestamp v = None"
| "coerce e PgText v = Some (JStr (driver_text e v))"
| "coerce e PgVarchar v = Some (JStr (driver_text e v))"
| "coerce e PgInteger (JNum n) = (if int4 n then Some (JNum n) else None)"
| "coerce e PgInteger v =
     (case parseInteger e (driver_text e v) of
        Some n \<Rightarrow> if int4 n then Some (JNum n) else None
      | None \<Rightarrow> None)"
| "coerce e PgBoolean (JBool b) = Some (JBool b)"
| "coerce e PgBoolean v = map_option JBool (parseBoolean e (driver_text e v))"
| "coerce e PgDate v = map_option JStr (parseDate e (driver_text e v))"
| "coerce e (PgEnum ls) v =
     (if driver_text e v \<in> set ls then Some (JStr (driver_text e v)) else None)"

text \<open>
  The value an \<open>INSERT\<close> stores in a column: the one given, as the column stores it, or
  the column's default.
\<close>

definition insert_value :: "env \<Rightarrow> obj \<Rightarrow> column \<Rightarrow> json option" where
  "insert_value e vals c =
     (case map_of vals (ckey c) of
        Some v \<Rightarrow> coerce e (ctype c) v
      | None \<Rightarrow>
          Some (case hasDefault c of
                  GenRandomUuid \<Rightarrow> JStr (uuid e)
                | DefaultNow \<Rightarrow> JNum (now e)
                | DefaultValue v \<Rightarrow> v
                | NoDefault \<Rightarrow> JNull))"

text \<open>The row of the values of all columns, when none is refused.\<close>

definition coerce_all :: "column list \<Rightarrow> (column \<Rightarrow> json option) \<Rightarrow> obj option" where
  "coerce_all cs val = those (map (\<lambda>c. map_option (Pair (ckey c)) (val c)) cs)"

definition not_null_ok :: "table \<Rightarrow> obj \<Rightarrow> bool" where
  "not_null_ok t r = list_all (\<lambda>c. isNotNull c \<longrightarrow> col r (ckey c) \<noteq> JNull) (columns t)"

text \<open>A primary key or unique column: no other row has the same value (nulls never clash).\<close>

definition unique_ok :: "table \<Rightarrow> obj \<Rightarrow> obj list \<Rightarrow> bool" where
  "unique_ok t r others =
     list_all (\<lambda>c. (isPrimaryKey c \<or> isUnique c) \<longrightarrow>
                 col r (ckey c) = JNull \<or> list_all (\<lambda>r'. col r' (ckey c) \<noteq> col r (ckey c)) others)
       (columns t)"

text \<open>A foreign key: null, or the id of a row of the table referred to.\<close>

definition fk_ok :: "database \<Rightarrow> table \<Rightarrow> obj \<Rightarrow> bool" where
  "fk_ok d t r =
     list_all (\<lambda>c. case refersTo c of
                 None \<Rightarrow> True
               | Some t' \<Rightarrow> col r (ckey c) = JNull \<or> list_ex (\<lambda>r'. col r' ''id'' = col r (ckey c)) (rows d t'))
       (columns t)"

text \<open>\<open>db.insert(t).values(vals).returning()\<close>: the stored row and the new state.\<close>

definition insert_returning :: "env \<Rightarrow> table \<Rightarrow> obj \<Rightarrow> database \<Rightarrow> error + (obj \<times> database)" where
  "insert_returning e t vals d =
     (case coerce_all (columns t) (insert_value e vals) of
        None \<Rightarrow> Inl InvalidInput
      | Some r \<Rightarrow>
          if \<not> not_null_ok t r then Inl NotNullViolation
          else if \<not> unique_ok t r (rows d (tname t)) then Inl UniqueViolation
          else if \<not> fk_ok d t r then Inl ForeignKeyViolation
          else Inr (r, put_rows (tname t) (rows d (tname t) @ [r]) d))"

text \<open>The row after \<open>SET\<close>: the new value where one is given, the old one elsewhere.\<close>

definition set_values :: "table \<Rightarrow> obj \<Rightarrow> obj \<Rightarrow> obj" where
  "set_values t vals r =
     map (\<lambda>c. (ckey c, case map_of vals (ckey c) of Some v \<Rightarrow> v | None \<Rightarrow> col r (ckey c))) (columns t)"

text \<open>No row of any table refers to the id \<open>i\<close> of a row of table \<open>n\<close>.\<close>

definition unreferenced :: "database \<Rightarrow> tname \<Rightarrow> json \<Rightarrow> bool" where
  "unreferenced d n i =
     list_all (\<lambda>t'. list_all (\<lambda>c. refersTo c = Some n \<longrightarrow>
                                list_all (\<lambda>r'. col r' (ckey c) \<noteq> i) (rows d (tname t')))
                      (columns t'))
       all_tables"

text \<open>
  The changed rows clash on a unique key: two of them have the same value, or one has
  the value of a row left as it was (nulls never clash).
\<close>

definition clashes :: "string \<Rightarrow> obj list \<Rightarrow> obj list \<Rightarrow> bool" where
  "clashes k changed kept =
     (let vs = filter (\<lambda>v. v \<noteq> JNull) (map (\<lambda>r. col r k) changed)
      in \<not> distinct vs \<or> list_ex (\<lambda>r. col r k \<in> set vs) kept)"

text \<open>
  \<open>db.update(t).set(updates).where(w).returning()\<close>. Keys of \<open>updates\<close> that are no column
  are ignored, and a statement with nothing to set is refused. The values are checked
  when the statement is sent, the constraints on each row that changes. The result is
  the list of changed rows, empty when no row satisfies \<open>w\<close>.
\<close>

definition update_returning ::
  "env \<Rightarrow> table \<Rightarrow> obj \<Rightarrow> (obj \<Rightarrow> bool) \<Rightarrow> database \<Rightarrow> error + (obj list \<times> database)" where
  "update_returning e t updates w d =
     (let set_cols = filter (\<lambda>c. map_of updates (ckey c) \<noteq> None) (columns t) in
      if set_cols = [] then Inl NoValuesToSet
      else
        case coerce_all set_cols (\<lambda>c. coerce e (ctype c) (col updates (ckey c))) of
          None \<Rightarrow> Inl InvalidInput
        | Some vals \<Rightarrow>
            (let old = rows d (tname t);
                 hit = filter w old;
                 changed = map (set_values t vals) hit;
                 new = map (\<lambda>r. if w r then set_values t vals r else r) old
             in if \<not> list_all (not_null_ok t) changed then Inl NotNullViolation
                else if list_ex (\<lambda>c. (isPrimaryKey c \<or> isUnique c)
                                       \<and> clashes (ckey c) changed (filter (\<lambda>r. \<not> w r) old)) set_cols
                  then Inl UniqueViolation
                else if \<not> list_all (fk_ok d t) changed then Inl ForeignKeyViolation
                else if \<not> list_all (\<lambda>r. col (set_values t vals r) ''id'' = col r ''id''
                                          \<or> unreferenced d (tname t) (col r ''id'')) hit
                  then Inl ForeignKeyViolation
                else Inr (changed, put_rows (tname t) new d)))"

subsection \<open>Query helpers\<close>

text \<open>SQL comparison: a null on either side never compares equal.\<close>

definition sql_eq :: "json \<Rightarrow> json \<Rightarrow> bool" where
  "sql_eq a b = (a \<noteq> JNull \<and> b \<noteq> JNull \<and> a = b)"

definition sql_like :: "json \<Rightarrow> string \<Rightarrow> bool" where
  "sql_like v p = (case v of JStr s \<Rightarrow> like_match p s | _ \<Rightarrow> False)"

definition sql_ilike :: "(char \<Rightarrow> char) \<Rightarrow> json \<Rightarrow> string \<Rightarrow> bool" where
  "sql_ilike lc v p = (case v of JStr s \<Rightarrow> ilike_match lc p s | _ \<Rightarrow> False)"

definition num_of :: "json \<Rightarrow> int" where
  "num_of v = (case v of JNum n \<Rightarrow> n | _ \<Rightarrow> 0)"

text \<open>\<open>ORDER BY key DESC\<close>; rows with equal keys stay in some order, here the table's.\<close>

definition orderBy_desc :: "('a \<Rightarrow> int) \<Rightarrow> 'a list \<Rightarrow> 'a list" where
  "orderBy_desc key xs = sort_key (\<lambda>x. - key x) xs"

text \<open>\<open>const [x] = rows\<close>: the first row, or \<open>undefined\<close>.\<close>

definition first_row :: "'a list \<Rightarrow> 'a option" where
  "first_row rs = (case rs of [] \<Rightarrow> None | r # _ \<Rightarrow> Some r)"

text \<open>
  \<open>a LEFT JOIN b ON on\<close>: every row of \<open>a\<close> with each of its partners in \<open>b\<close>, or once
  with no partner (all of \<open>b\<close>'s columns null).
\<close>

definition leftJoin :: "'a list \<Rightarrow> 'b list \<Rightarrow> ('a \<Rightarrow> 'b \<Rightarrow> bool) \<Rightarrow> ('a \<times> 'b option) list" where
  "leftJoin ls rs on =
     concat (map (\<lambda>l. case filter (on l) rs of
                          [] \<Rightarrow> [(l, None)]
                        | ms \<Rightarrow> map (\<lambda>m. (l, Some m)) ms) ls)"

definition ocol :: "obj option \<Rightarrow> string \<Rightarrow> json" where
  "ocol r k = (case r of None \<Rightarrow> JNull | Some r' \<Rightarrow> col r' k)"


section \<open>The storage layer (server/storage.ts)\<close>

subsection \<open>Users\<close>

definition getUser :: "string \<Rightarrow> database \<Rightarrow> obj option" where
  "getUser i d = first_row (filter (\<lambda>r. sql_eq (col r ''id'') (JStr i)) (rows d Users))"

definition getUserByUsername :: "string \<Rightarrow> database \<Rightarrow> obj option" where
  "getUserByUsername u d =
     first_row (filter (\<lambda>r. sql_eq (col r ''username'') (JStr u)) (rows d Users))"

definition createUser :: "env \<Rightarrow> obj \<Rightarrow> database \<Rightarrow> error + (obj \<times> database)" where
  "createUser e insertUser d = insert_returning e users insertUser d"

subsection \<open>Patients\<close>

record patient_filters =
  district :: "string option"
  healthStatus :: "string option"
  search :: "string option"
  limit :: "int option"
  offset :: "int option"

text \<open>
  \<open>getPatients\<close> collects one condition per truthy filter (a string that is given and
  not empty, a number that is given and not 0) and joins them with \<open>and\<close>.
  The health status is compared with an enum column, so a text that is no label of the
  enum makes the query fail, as a negative \<open>LIMIT\<close> or \<open>OFFSET\<close> does. SQL skips the
  offset before it applies the limit. The first argument is the lowering of the
  database's locale, which \<open>ILIKE\<close> uses.
\<close>

definition getPatients :: "(char \<Rightarrow> char) \<Rightarrow> patient_filters \<Rightarrow> database \<Rightarrow> error + obj list" where
  "getPatients lc filters d =
     (let conditions =
            (case district filters of
               Some s \<Rightarrow> if s \<noteq> [] then [\<lambda>r. sql_like (col r ''district'') (''%'' @ s @ ''%'')] else []
             | None \<Rightarrow> []) @
            (case healthStatus filters of
               Some s \<Rightarrow> if s \<noteq> [] then [\<lambda>r. sql_eq (col r ''healthStatus'') (JStr s)] else []
             | None \<Rightarrow> []) @
            (case search filters of
               Some s \<Rightarrow>
                 if s \<noteq> []
                 then [\<lambda>r. sql_ilike lc (col r ''name'') (''%'' @ s @ ''%'')
                             \<or> sql_ilike lc (col r ''patientId'') (''%'' @ s @ ''%'')]
                 else []
             | None \<Rightarrow> []);
          selected =
            (if 0 < length conditions
             then filter (\<lambda>r. list_all (\<lambda>c. c r) conditions) (rows d Patients)
             else rows d Patients);
          ordered = orderBy_desc (\<lambda>r. num_of (col r ''registeredAt'')) selected;
          skipped = (case offset filters of
                       Some n \<Rightarrow> if n \<noteq> 0 then drop (nat n) ordered else ordered
                     | None \<Rightarrow> ordered);
          limited = (case limit filters of
                       Some n \<Rightarrow> if n \<noteq> 0 then take (nat n) skipped else skipped
                     | None \<Rightarrow> skipped)
      in if (case healthStatus filters of Some s \<Rightarrow> s \<noteq> [] \<and> s \<notin> set healthStatusEnum | None \<Rightarrow> False)
            \<or> (case limit filters of Some n \<Rightarrow> n < 0 | None \<Rightarrow> False)
            \<or> (case offset filters of Some n \<Rightarrow> n < 0 | None \<Rightarrow> False)
         then Inl InvalidInput
         else Inr limited)"

definition getPatientsCount :: "database \<Rightarrow> nat" where
  "getPatientsCount d = length (rows d Patients)"

definition getPatientById :: "string \<Rightarrow> database \<Rightarrow> obj option" where
  "getPatientById i d = first_row (filter (\<lambda>r. sql_eq (col r ''id'') (JStr i)) (rows d Patients))"

text \<open>
  \<open>createPatient\<close> reads the count, formats the identifier and inserts the payload with
  it; in the spread \<open>{...insertPatient, patientId}\<close> the generated value wins over a
  \<open>patientId\<close> of the payload.
\<close>

definition createPatient :: "env \<Rightarrow> obj \<Rightarrow> database \<Rightarrow> error + (obj \<times> database)" where
  "createPatient e insertPatient d =
     (let patientCount = getPatientsCount d;
          patientId = ''MW'' @ padStart 6 CHR ''0'' (toString (patientCount + 1))
      in insert_returning e patients (AList.update ''patientId'' (JStr patientId) insertPatient) d)"

text \<open>
  \<open>updatePatient\<close> returns the first changed row. When no row has the id, the list is
  empty and the function returns \<open>undefined\<close>; it does not throw.
\<close>

definition updatePatient :: "env \<Rightarrow> string \<Rightarrow> obj \<Rightarrow> database \<Rightarrow> error + (obj option \<times> database)" where
  "updatePatient e i updates d =
     (case update_returning e patients updates (\<lambda>r. sql_eq (col r ''id'') (JStr i)) d of
        Inl err \<Rightarrow> Inl err
      | Inr (changed, d') \<Rightarrow> Inr (first_row changed, d'))"

subsection \<open>Health records, diseases, disease cases\<close>

definition getHealthRecordById :: "string \<Rightarrow> database \<Rightarrow> obj option" where
  "getHealthRecordById i d =
     first_row (filter (\<lambda>r. sql_eq (col r ''id'') (JStr i)) (rows d HealthRecords))"

definition createHealthRecord :: "env \<Rightarrow> obj \<Rightarrow> database \<Rightarrow> error + (obj \<times> database)" where
  "createHealthRecord e insertRecord d = insert_returning e healthRecords insertRecord d"

definition createDisease :: "env \<Rightarrow> obj \<Rightarrow> database \<Rightarrow> error + (obj \<times> database)" where
  "createDisease e insertDisease d = insert_returning e diseases insertDisease d"





definition createDiseaseCase :: "env \<Rightarrow> obj \<Rightarrow> database \<Rightarrow> error + (obj \<times> database)" where
  "createDiseaseCase e insertCase d = insert_returning e diseaseCases insertCase d"

text \<open>
  \<open>getDiseaseStats\<close>: diseases left-joined with their cases, grouped by the disease's id
  and name; \<open>count(diseaseCases.id)\<close> counts the rows of a group whose case id is not null.
\<close>

definition getDiseaseStats :: "database \<Rightarrow> obj list" where
  "getDiseaseStats d =
     (let joined = leftJoin (rows d Diseases) (rows d DiseaseCases)
                     (\<lambda>ds c. sql_eq (col ds ''id'') (col c ''diseaseId''));
          group_key = (\<lambda>j. (col (fst j) ''id'', col (fst j) ''name''));
          groups = remdups (map group_key joined);
          counted = map (\<lambda>g. (snd g,
                               length (filter (\<lambda>j. group_key j = g \<and> ocol (snd j) ''id'' \<noteq> JNull) joined)))
                      groups
      in map (\<lambda>nc. [(''name'', fst nc), (''count'', JNum (int (snd nc)))])
           (orderBy_desc (\<lambda>nc. int (snd nc)) counted))"

subsection \<open>Health alerts\<close>

text \<open>The parameter \<open>activeOnly\<close> defaults to \<open>false\<close> when it is not passed.\<close>

definition getHealthAlerts :: "bool option \<Rightarrow> database \<Rightarrow> obj list" where
  "getHealthAlerts activeOnly d =
     (let selected =
            (if (case activeOnly of None \<Rightarrow> False | Some b \<Rightarrow> b)
             then filter (\<lambda>r. sql_eq (col r ''isActive'') (JBool True)) (rows d HealthAlerts)
             else rows d HealthAlerts)
      in orderBy_desc (\<lambda>r. num_of (col r ''createdAt'')) selected)"

definition createHealthAlert :: "env \<Rightarrow> obj \<Rightarrow> database \<Rightarrow> error + (obj \<times> database)" where
  "createHealthAlert e insertAlert d = insert_returning e healthAlerts insertAlert d"

section \<open>The routes\<close>

text \<open>
  Each handler is a \<open>try\<close> block around the storage call and a \<open>catch\<close> that turns what
  was thrown into a status code. The result is the response and the state afterwards.
\<close>

definition respond :: "nat \<Rightarrow> json \<Rightarrow> response" where
  "respond c v = \<lparr>statusCode = c, body = Some v\<rparr>"

text \<open>\<open>GET /api/patients/:id\<close>\<close>

definition route_get_patient :: "string \<Rightarrow> database \<Rightarrow> response" where
  "route_get_patient i d =
     (case getPatientById i d of
        None \<Rightarrow> respond 404 (message ''Patient not found'')
      | Some patient \<Rightarrow> respond 200 (JObj patient))"

text \<open>
  The five \<open>POST\<close> handlers have one form: parse the body with the insert schema, hand
  the parsed value to the storage layer, answer 201 with the stored row; a ZodError
  becomes 400 with the error's issues, anything else thrown becomes 500.
\<close>

definition issue_json :: "zissue \<Rightarrow> json" where
  "issue_json i = JObj [(''code'', JStr (code i)), (''path'', JArr (map JStr (path i)))]"

definition post_handler ::
  "zfield list \<Rightarrow> (obj \<Rightarrow> database \<Rightarrow> error + (obj \<times> database)) \<Rightarrow> string \<Rightarrow> string \<Rightarrow>
   json \<Rightarrow> database \<Rightarrow> response \<times> database" where
  "post_handler schema create invalid failed reqBody d =
     (case (case zparse schema reqBody of Inl err \<Rightarrow> Inl err | Inr data \<Rightarrow> create data d) of
        Inr (r, d') \<Rightarrow> (respond 201 (JObj r), d')
      | Inl (ZodError issues) \<Rightarrow>
          (respond 400 (JObj [(''message'', JStr invalid), (''errors'', JArr (map issue_json issues))]), d)
      | Inl _ \<Rightarrow> (respond 500 (message failed), d))"

definition route_post_patients :: "env \<Rightarrow> json \<Rightarrow> database \<Rightarrow> response \<times> database" where
  "route_post_patients e =
     post_handler insertPatientSchema (createPatient e) ''Invalid patient data'' ''Failed to create patient''"

definition route_post_health_records :: "env \<Rightarrow> json \<Rightarrow> database \<Rightarrow> response \<times> database" where
  "route_post_health_records e =
     post_handler insertHealthRecordSchema (createHealthRecord e)
       ''Invalid health record data'' ''Failed to create health record''"

definition route_post_diseases :: "env \<Rightarrow> json \<Rightarrow> database \<Rightarrow> response \<times> database" where
  "route_post_diseases e =
     post_handler insertDiseaseSchema (createDisease e) ''Invalid disease data'' ''Failed to create disease''"

definition route_post_disease_cases :: "env \<Rightarrow> json \<Rightarrow> database \<Rightarrow> response \<times> database" where
  "route_post_disease_cases e =
     post_handler insertDiseaseCaseSchema (createDiseaseCase e)
       ''Invalid disease case data'' ''Failed to create disease case''"

definition route_post_health_alerts :: "env \<Rightarrow> json \<Rightarrow> database \<Rightarrow> response \<times> database" where
  "route_post_health_alerts e =
     post_handler insertHealthAlertSchema (createHealthAlert e)
       ''Invalid alert data'' ''Failed to create health alert''"

text \<open>
  \<open>PUT /api/patients/:id\<close> passes the body, a JSON object, to \<open>updatePatient\<close>
  unvalidated and sends what comes back with \<open>res.json\<close>, also when that is
  \<open>undefined\<close>.
\<close>

definition route_put_patient :: "env \<Rightarrow> string \<Rightarrow> obj \<Rightarrow> database \<Rightarrow> response \<times> database" where
  "route_put_patient e i reqBody d =
     (case updatePatient e i reqBody d of
        Inr (patient, d') \<Rightarrow> (\<lparr>statusCode = 200, body = map_option JObj patient\<rparr>, d')
      | Inl _ \<Rightarrow> (respond 500 (message ''Failed to update patient''), d))"

text \<open>
  \<open>GET /api/health-alerts\<close>. A query parameter is a string, a list (the parameter given
  several times) or a nested object; only the string \<open>true\<close> is strictly equal to \<open>'true'\<close>.
\<close>

datatype qvalue = QStr string | QArr "string list" | QObj "(string \<times> string) list"

definition route_get_health_alerts :: "(string \<times> qvalue) list \<Rightarrow> database \<Rightarrow> response" where
  "route_get_health_alerts query d =
     (let activeOnly = map_of query ''activeOnly''
      in respond 200 (JArr (map JObj (getHealthAlerts (Some (activeOnly = Some (QStr ''true''))) d))))"

section \<open>Notions used in the statements\<close>

text \<open>A list in descending order of a key, as \<open>ORDER BY key DESC\<close> leaves it.\<close>

definition descending :: "('a \<Rightarrow> int) \<Rightarrow> 'a list \<Rightarrow> bool" where
  "descending key xs = sorted_wrt (\<lambda>a b. key b \<le> key a) xs"

text \<open>
  What it means for a payload to violate a field of an insert schema, in the words of
  the schema: a required field is missing, a field that may not be null is null, or the
  value is not of the field's kind.
\<close>

fun accepts :: "zkind \<Rightarrow> json \<Rightarrow> bool" where
  "accepts ZString (JStr s) = True"
| "accepts ZInt (JNum n) = int4 n"
| "accepts ZBoolean (JBool b) = True"
| "accepts (ZEnum ls) (JStr s) = (s \<in> set ls)"
| "accepts k v = False"

definition violates :: "obj \<Rightarrow> zfield \<Rightarrow> bool" where
  "violates data f =
     (case map_of data (zkey f) of
        None \<Rightarrow> \<not> zoptional f
      | Some JNull \<Rightarrow> \<not> znullable f
      | Some v \<Rightarrow> \<not> accepts (zkind f) v)"

text \<open>
  The identifier of the \<open>n\<close>-th patient, and the tables in which every patient id is
  the identifier of some position up to the number of rows, as in a table that only
  \<open>createPatient\<close> has filled.
\<close>

definition generated_id :: "nat \<Rightarrow> string" where
  "generated_id n = ''MW'' @ padStart 6 CHR ''0'' (toString n)"

definition sequential_ids :: "obj list \<Rightarrow> bool" where
  "sequential_ids ps =
     list_all (\<lambda>r. list_ex (\<lambda>k. col r ''patientId'' = JStr (generated_id k)) [1 ..< Suc (length ps)]) ps"

text \<open>
  What the database asks of a validated patient payload beyond the schema: the id it
  draws is new, a \<open>lastCheckup\<close> text reads as a date, and a \<open>registeredBy\<close> user exists.
\<close>

definition insertable :: "env \<Rightarrow> obj \<Rightarrow> database \<Rightarrow> bool" where
  "insertable e data d =
     (list_all (\<lambda>r. col r ''id'' \<noteq> JStr (uuid e)) (rows d Patients)
      \<and> (case map_of data ''lastCheckup'' of Some (JStr s) \<Rightarrow> parseDate e s \<noteq> None | _ \<Rightarrow> True)
      \<and> (case map_of data ''registeredBy'' of
            Some (JStr u) \<Rightarrow> list_ex (\<lambda>r. col r ''id'' = JStr u) (rows d Users)
          | _ \<Rightarrow> True))"

text \<open>
  The patients a filter asks for, in the words of the specification: the district
  contains the district filter, the health status is the one given, and the search term
  occurs in the name or in the patient id, letter case ignored: both sides are lowered
  by \<open>lc\<close>, the lowering of the database's locale. A value that is no string is read as
  the empty string.
\<close>

definition str_of :: "json \<Rightarrow> string" where
  "str_of v = (case v of JStr s \<Rightarrow> s | _ \<Rightarrow> [])"

definition patient_matches :: "(char \<Rightarrow> char) \<Rightarrow> patient_filters \<Rightarrow> obj \<Rightarrow> bool" where
  "patient_matches lc f r =
     ((case district f of None \<Rightarrow> True | Some s \<Rightarrow> sublist s (str_of (col r ''district'')))
      \<and> (case healthStatus f of None \<Rightarrow> True | Some s \<Rightarrow> col r ''healthStatus'' = JStr s)
      \<and> (case search f of
            None \<Rightarrow> True
          | Some s \<Rightarrow> sublist (map lc s) (map lc (str_of (col r ''name'')))
                      \<or> sublist (map lc s) (map lc (str_of (col r ''patientId'')))))"

text \<open>
  A lowering that leaves the three \<open>LIKE\<close> characters alone: it changes none of them
  and changes no character into one of them.
\<close>

definition keeps_wildcards :: "(char \<Rightarrow> char) \<Rightarrow> bool" where
  "keeps_wildcards lc = (\<forall>c. like_meta c \<or> like_meta (lc c) \<longrightarrow> lc c = c)"

text \<open>A filter text free of the characters that \<open>LIKE\<close> reads as wildcards or escapes.\<close>

definition plain :: "string option \<Rightarrow> bool" where
  "plain t = (case t of None \<Rightarrow> True | Some s \<Rightarrow> \<not> list_ex like_meta s)"







text \<open>The primary key of a table: every row has an id, and no two rows the same.\<close>

definition primary_key_ok :: "obj list \<Rightarrow> bool" where
  "primary_key_ok rs =
     (distinct (map (\<lambda>r. col r ''id'') rs) \<and> list_all (\<lambda>r. col r ''id'' \<noteq> JNull) rs)"

text \<open>The number of cases that refer to a disease, and the pair the statistics give for it.\<close>

definition case_count :: "database \<Rightarrow> obj \<Rightarrow> nat" where
  "case_count d ds = length (filter (\<lambda>c. col c ''diseaseId'' = col ds ''id'') (rows d DiseaseCases))"

definition stat_of :: "database \<Rightarrow> obj \<Rightarrow> obj" where
  "stat_of d ds = [(''name'', col ds ''name''), (''count'', JNum (int (case_count d ds)))]"

text \<open>
  A payload violates a schema when it is no object, or it is an object that violates
  one of the schema's fields.
\<close>

definition violating :: "zfield list \<Rightarrow> json \<Rightarrow> bool" where
  "violating schema v = (case v of JObj data \<Rightarrow> list_ex (violates data) schema | _ \<Rightarrow> True)"

text \<open>The fields that the server sets itself when a patient is created.\<close>

definition system_keys :: "string list" where
  "system_keys = [''id'', ''patientId'', ''registeredAt'']"

section \<open>Sample states\<close>

text \<open>
  Two lowerings: that of the C locale, which knows the letters A to Z only, and one that
  also lowers the capital E with acute accent (character 201) as a Latin-1 locale does.
\<close>

definition ascii_lower :: "char \<Rightarrow> char" where
  "ascii_lower c =
     (case map_of (zip ''ABCDEFGHIJKLMNOPQRSTUVWXYZ'' ''abcdefghijklmnopqrstuvwxyz'') c of
        Some l \<Rightarrow> l
      | None \<Rightarrow> c)"

definition latin_lower :: "char \<Rightarrow> char" where
  "latin_lower c = (if c = CHR 0xC9 then CHR 0xE9 else ascii_lower c)"

definition db_empty :: database where
  "db_empty = \<lparr>t_users = [], t_patients = [], t_healthRecords = [], t_diseases = [],
               t_diseaseCases = [], t_healthAlerts = []\<rparr>"

text \<open>
  A sample environment. It reads an integer written in decimal with an optional minus
  sign, the boolean literals \<open>true\<close>, \<open>t\<close>, \<open>yes\<close>, \<open>y\<close>, \<open>on\<close>, \<open>1\<close> and their opposites,
  and a date written \<open>yyyy-mm-dd\<close>.
\<close>

definition is_digit :: "char \<Rightarrow> bool" where
  "is_digit c = (c \<in> set ''0123456789'')"

definition read_natural :: "string \<Rightarrow> nat option" where
  "read_natural s = (if s \<noteq> [] \<and> list_all is_digit s then Some (decimal_val s) else None)"

definition read_integer :: "string \<Rightarrow> int option" where
  "read_integer s =
     (if s \<noteq> [] \<and> hd s = CHR ''-'' then map_option (\<lambda>n. - int n) (read_natural (tl s))
      else map_option int (read_natural s))"

definition read_boolean :: "string \<Rightarrow> bool option" where
  "read_boolean s =
     (if s \<in> set [''true'', ''t'', ''yes'', ''y'', ''on'', ''1''] then Some True
      else if s \<in> set [''false'', ''f'', ''no'', ''n'', ''off'', ''0''] then Some False
      else None)"

definition days_in_month :: "nat \<Rightarrow> nat \<Rightarrow> nat" where
  "days_in_month y m =
     (if m = 2 then (if y mod 4 = 0 \<and> (y mod 100 \<noteq> 0 \<or> y mod 400 = 0) then 29 else 28)
      else if m \<in> set [4, 6, 9, 11] then 30 else 31)"

definition read_date :: "string \<Rightarrow> string option" where
  "read_date s =
     (if length s = 10 \<and> s ! 4 = CHR ''-'' \<and> s ! 7 = CHR ''-''
      then (case (read_natural (take 4 s), read_natural (take 2 (drop 5 s)), read_natural (drop 8 s)) of
              (Some y, Some m, Some d) \<Rightarrow>
                if 1 \<le> y \<and> 1 \<le> m \<and> m \<le> 12 \<and> 1 \<le> d \<and> d \<le> days_in_month y m then Some s else None
            | _ \<Rightarrow> None)
      else None)"

definition env0 :: env where
  "env0 = \<lparr>uuid = ''0b5e'', now = 1000, parseDate = read_date, parseInteger = read_integer,
           parseBoolean = read_boolean, serialize = (\<lambda>v. ''{}'')\<rparr>"

definition patient_row :: "string \<Rightarrow> string \<Rightarrow> string \<Rightarrow> string \<Rightarrow> string \<Rightarrow> int \<Rightarrow> obj" where
  "patient_row i pid n dist hs at =
     [(''id'', JStr i), (''patientId'', JStr pid), (''name'', JStr n), (''age'', JNum 30),
      (''gender'', JStr ''female''), (''phone'', JNull), (''address'', JNull),
      (''district'', JStr dist), (''workplace'', JNull), (''employerName'', JNull),
      (''emergencyContact'', JNull), (''emergencyPhone'', JNull), (''healthStatus'', JStr hs),
      (''registeredAt'', JNum at), (''lastCheckup'', JNull), (''registeredBy'', JNull)]"

definition db_two :: database where
  "db_two = db_empty\<lparr>t_patients :=
     [patient_row ''p1'' ''MW000001'' ''Asha'' ''Pune'' ''healthy'' 10,
      patient_row ''p2'' ''MW000002'' ''Ravi'' ''Kochi'' ''critical'' 20]\<rparr>"

definition alert_row :: "string \<Rightarrow> string \<Rightarrow> json \<Rightarrow> int \<Rightarrow> obj" where
  "alert_row i t active at =
     [(''id'', JStr i), (''title'', JStr t), (''description'', JStr ''cases rising''),
      (''severity'', JStr ''high''), (''district'', JNull), (''diseaseId'', JNull),
      (''affectedCount'', JNum 0), (''isActive'', active), (''createdAt'', JNum at),
      (''createdBy'', JNull)]"

definition db_alerts :: database where
  "db_alerts = db_empty\<lparr>t_healthAlerts :=
     [alert_row ''a1'' ''Dengue'' (JBool True) 5, alert_row ''a2'' ''Flu'' (JBool False) 7]\<rparr>"

definition no_filters :: patient_filters where
  "no_filters = \<lparr>district = None, healthStatus = None, search = None, limit = None, offset = None\<rparr>"

definition payload_no_name :: json where
  "payload_no_name = JObj [(''age'', JNum 30), (''gender'', JStr ''female''), (''district'', JStr ''Pune'')]"

definition payload_asha :: obj where
  "payload_asha = [(''name'', JStr ''Asha''), (''age'', JNum 30), (''gender'', JStr ''female''),
                   (''district'', JStr ''Pune'')]"

definition payload_forged :: obj where
  "payload_forged = [(''id'', JStr ''chosen-by-client''), (''name'', JStr ''Asha''), (''age'', JNum 30),
                     (''patientId'', JStr ''MW999999''), (''gender'', JStr ''female''),
                     (''district'', JStr ''Pune''), (''registeredAt'', JNum 1)]"

definition disease_row :: "string \<Rightarrow> string \<Rightarrow> obj" where
  "disease_row i n =
     [(''id'', JStr i), (''name'', JStr n), (''type'', JStr ''infectious''), (''description'', JNull),
      (''symptoms'', JNull), (''infectious'', JBool True), (''reportable'', JBool True)]"

definition disease_case_row :: "string \<Rightarrow> string \<Rightarrow> string \<Rightarrow> string \<Rightarrow> int \<Rightarrow> obj" where
  "disease_case_row i p ds st at =
     [(''id'', JStr i), (''patientId'', JStr p), (''diseaseId'', JStr ds),
      (''diagnosisDate'', JStr ''2024-05-01''), (''status'', JStr st), (''severity'', JStr ''mild''),
      (''notes'', JNull), (''reportedAt'', JNum at), (''reportedBy'', JNull)]"

definition db_cases :: database where
  "db_cases = db_two\<lparr>t_diseases := [disease_row ''d1'' ''Flu'', disease_row ''d2'' ''Dengue''],
                        t_diseaseCases := [disease_case_row ''c1'' ''p1'' ''d2'' ''active'' 30]\<rparr>"

definition filters_ecole :: patient_filters where
  "filters_ecole = \<lparr>district = Some ''yo'', healthStatus = Some ''healthy'',
                     search = Some (CHR 0xE9 # ''co''), limit = None, offset = None\<rparr>"




definition env1 :: env where
  "env1 = env0\<lparr>uuid := ''7c1d'', now := 2000\<rparr>"

definition db_one :: database where
  "db_one = db_empty\<lparr>t_patients := [patient_row ''0b5e'' ''MW000001'' ''Asha'' ''Pune'' ''healthy'' 1000]\<rparr>"

definition db_renumbered :: database where
  "db_renumbered = db_empty\<lparr>t_patients := [patient_row ''0b5e'' ''MW000002'' ''Asha'' ''Pune'' ''healthy'' 1000]\<rparr>"

definition db_ecole :: database where
  "db_ecole = db_empty\<lparr>t_patients :=
     [patient_row ''p1'' ''MW000001'' ''Asha'' ''Pune'' ''healthy'' 10,
      patient_row ''p3'' ''MW000002'' (CHR 0xC9 # ''cole'') ''Lyon'' ''healthy'' 30]\<rparr>"

definition payload_mistyped :: json where
  "payload_mistyped = JObj [(''name'', JNum 5), (''age'', JStr ''x''), (''gender'', JStr ''female''),
                            (''district'', JStr ''Pune'')]"

section \<open>Lemmas\<close>

lemma first_row_filter_None: "first_row (filter P xs) = None \<longleftrightarrow> \<not> list_ex P xs"
proof (cases "filter P xs")
  case Nil
  then show ?thesis by (simp add: first_row_def list_ex_iff filter_empty_conv)
next
  case (Cons a as)
  then have "a \<in> set (filter P xs)" by simp
  then have "list_ex P xs" by (auto simp: list_ex_iff)
  then show ?thesis using Cons by (simp add: first_row_def)
qed

lemma first_row_filter_Some: "first_row (filter P xs) = Some x \<Longrightarrow> x \<in> set xs \<and> P x"
proof -
  assume "first_row (filter P xs) = Some x"
  then obtain ys where "filter P xs = x # ys" by (auto simp: first_row_def split: list.splits)
  then have "x \<in> set (filter P xs)" by simp
  then show ?thesis by simp
qed

lemma sql_eq_JStr: "sql_eq v (JStr s) \<longleftrightarrow> v = JStr s"
  by (auto simp: sql_eq_def)

lemma db_two_patients: "t_patients db_two =
     [patient_row ''p1'' ''MW000001'' ''Asha'' ''Pune'' ''healthy'' 10,
      patient_row ''p2'' ''MW000002'' ''Ravi'' ''Kochi'' ''critical'' 20]"
  by (simp add: db_two_def db_empty_def)

lemma patient_row_id: "col (patient_row i pid n dist hs at) ''id'' = JStr i"
  by (simp add: patient_row_def col_def)

lemma mset_orderBy_desc: "mset (orderBy_desc key xs) = mset xs"
  by (simp add: orderBy_desc_def)


lemma descending_orderBy_desc: "descending key (orderBy_desc key xs)"
proof -
  have "sorted (map (\<lambda>x. - key x) (sort_key (\<lambda>x. - key x) xs))"
    by (rule sorted_sort_key)
  then show ?thesis
    by (simp add: descending_def orderBy_desc_def sorted_map)
qed

lemma descending_map: "descending key (map f xs) = descending (\<lambda>x. key (f x)) xs"
  by (simp add: descending_def sorted_wrt_map)

lemma put_rows_same: "put_rows n (rows d n) d = d"
  by (cases n) simp_all

lemma rows_put_rows: "rows (put_rows n rs d) n' = (if n = n' then rs else rows d n')"
  by (cases n; cases n') simp_all

lemma filter_none: "\<not> list_ex P xs \<Longrightarrow> filter P xs = []"
  by (simp add: list_ex_iff filter_empty_conv)

lemma map_if_none: "\<not> list_ex P xs \<Longrightarrow> map (\<lambda>r. if P r then f r else r) xs = xs"
  by (induction xs) auto

lemma map_of_strip:
  "map_of (strip shape data) k = Some v \<Longrightarrow> k \<in> zkey ` set shape"
proof -
  assume "map_of (strip shape data) k = Some v"
  then have "(k, v) \<in> set (strip shape data)" by (rule map_of_SomeD)
  then show ?thesis
    by (auto simp: strip_def List.map_filter_def)
qed

lemma map_of_filter_keys:
  "k \<notin> set ks \<Longrightarrow> map_of (filter (\<lambda>kv. fst kv \<notin> set ks) data) k = map_of data k"
  by (induction data) auto

lemma field_issues_filter_keys:
  "zkey f \<notin> set ks \<Longrightarrow> field_issues (filter (\<lambda>kv. fst kv \<notin> set ks) data) f = field_issues data f"
  by (simp add: field_issues_def map_of_filter_keys)

lemma zparse_filter_keys:
  assumes "\<forall>f \<in> set shape. zkey f \<notin> set ks"
  shows "zparse shape (JObj (filter (\<lambda>kv. fst kv \<notin> set ks) data)) = zparse shape (JObj data)"
proof -
  have a: "map (field_issues (filter (\<lambda>kv. fst kv \<notin> set ks) data)) shape = map (field_issues data) shape"
    using assms by (simp add: field_issues_filter_keys)
  have b: "strip shape (filter (\<lambda>kv. fst kv \<notin> set ks) data) = strip shape data"
    unfolding strip_def List.map_filter_def using assms
    by (intro arg_cong2[where f = map] refl filter_cong map_cong) (simp_all add: map_of_filter_keys)
  show ?thesis by (simp add: zparse_def a b)
qed

lemma insertPatientSchema_keys:
  "map zkey insertPatientSchema =
     [''name'', ''age'', ''gender'', ''phone'', ''address'', ''district'', ''workplace'',
      ''employerName'', ''emergencyContact'', ''emergencyPhone'', ''healthStatus'',
      ''lastCheckup'', ''registeredBy'']"
  by (simp add: insertPatientSchema_def omit_def createInsertSchema_def zod_of_column_def patients_def
      column_of_def notNull_def primaryKey_def unique_col_def default_col_def references_def)

lemma insertPatientSchema_no_system_keys:
  "\<forall>f \<in> set insertPatientSchema. zkey f \<notin> set system_keys"
proof -
  have "set (map zkey insertPatientSchema) \<inter> set system_keys = {}"
    unfolding insertPatientSchema_keys system_keys_def by simp
  then show ?thesis by auto
qed

lemma zparse_insertPatient_no_system_key:
  assumes "zparse insertPatientSchema b = Inr data" and "k \<in> set system_keys"
  shows "map_of data k = None"
proof (rule ccontr)
  assume "map_of data k \<noteq> None"
  then obtain v where v: "map_of data k = Some v" by auto
  obtain raw where "b = JObj raw" "data = strip insertPatientSchema raw"
    using assms(1) by (cases b) (auto simp: zparse_def Let_def split: if_splits)
  then have "k \<in> zkey ` set insertPatientSchema" using v map_of_strip by metis
  then show False using assms(2) insertPatientSchema_no_system_keys by auto
qed

lemma those_map_Some:
  "those (map f cs) = Some r \<Longrightarrow> list_all2 (\<lambda>c x. f c = Some x) cs r"
proof (induction cs arbitrary: r)
  case Nil
  then show ?case by simp
next
  case (Cons c cs)
  then obtain x xs where "f c = Some x" "those (map f cs) = Some xs" "r = x # xs"
    by (auto split: option.splits)
  then show ?case using Cons.IH by simp
qed

lemma coerce_all_lookup:
  assumes "coerce_all cs val = Some r" and "distinct (map ckey cs)" and "c \<in> set cs"
  shows "\<exists>v. val c = Some v \<and> map_of r (ckey c) = Some v"
proof -
  have "list_all2 (\<lambda>c x. map_option (Pair (ckey c)) (val c) = Some x) cs r"
    using assms(1) unfolding coerce_all_def by (rule those_map_Some)
  then show ?thesis using assms(2,3)
  proof (induction cs r rule: list_all2_induct)
    case Nil
    then show ?case by simp
  next
    case (Cons a as b bs)
    show ?case
    proof (cases "c = a")
      case True
      then show ?thesis using Cons.hyps(1) by auto
    next
      case False
      then have "c \<in> set as" using Cons.prems by simp
      moreover have "ckey a \<noteq> ckey c" using Cons.prems \<open>c \<in> set as\<close> by auto
      moreover have "fst b = ckey a" using Cons.hyps(1) by auto
      ultimately show ?thesis using Cons.IH Cons.prems by (cases b) auto
    qed
  qed
qed

lemma patients_keys:
  "map ckey (columns patients) =
     [''id'', ''patientId'', ''name'', ''age'', ''gender'', ''phone'', ''address'', ''district'',
      ''workplace'', ''employerName'', ''emergencyContact'', ''emergencyPhone'', ''healthStatus'',
      ''registeredAt'', ''lastCheckup'', ''registeredBy'']"
  by (simp add: patients_def column_of_def notNull_def primaryKey_def unique_col_def default_col_def
      references_def)

lemma patients_distinct: "distinct (map ckey (columns patients))"
  unfolding patients_keys by simp

lemma patients_system_columns:
  "default_col GenRandomUuid (primaryKey (column_of PgVarchar ''id'')) \<in> set (columns patients)"
  "unique_col (notNull (column_of PgText ''patientId'')) \<in> set (columns patients)"
  "notNull (default_col DefaultNow (column_of PgTimestamp ''registeredAt'')) \<in> set (columns patients)"
  by (simp_all add: patients_def)

lemma createPatient_system_fields:
  assumes "createPatient e data d = Inr (r, d')"
    and "map_of data ''id'' = None" and "map_of data ''registeredAt'' = None"
  shows "col r ''id'' = JStr (uuid e)
       \<and> col r ''patientId'' = JStr (''MW'' @ padStart 6 CHR ''0'' (toString (getPatientsCount d + 1)))
       \<and> col r ''registeredAt'' = JNum (now e)"
proof -
  define vals where
    "vals = AList.update ''patientId'' (JStr (''MW'' @ padStart 6 CHR ''0'' (toString (getPatientsCount d + 1)))) data"
  have c: "coerce_all (columns patients) (insert_value e vals) = Some r"
    using assms(1) unfolding createPatient_def insert_returning_def Let_def vals_def
    by (auto split: option.splits if_splits)
  have m: "map_of vals = (map_of data)(''patientId'' \<mapsto> JStr (''MW'' @ padStart 6 CHR ''0'' (toString (getPatientsCount d + 1))))"
    by (simp add: vals_def update_conv')
  have "col r ''id'' = JStr (uuid e)"
    using coerce_all_lookup[OF c patients_distinct patients_system_columns(1)] assms(2)
    by (simp add: insert_value_def m column_of_def primaryKey_def default_col_def col_def)
  moreover have "col r ''patientId'' = JStr (''MW'' @ padStart 6 CHR ''0'' (toString (getPatientsCount d + 1)))"
    using coerce_all_lookup[OF c patients_distinct patients_system_columns(2)]
    by (simp add: insert_value_def m column_of_def notNull_def unique_col_def col_def)
  moreover have "col r ''registeredAt'' = JNum (now e)"
    using coerce_all_lookup[OF c patients_distinct patients_system_columns(3)] assms(3)
    by (simp add: insert_value_def m column_of_def notNull_def default_col_def col_def)
  ultimately show ?thesis by simp
qed

lemma leftJoin_Cons:
  "leftJoin (l # ls) rs on =
     (case filter (on l) rs of [] \<Rightarrow> [(l, None)] | ms \<Rightarrow> map (\<lambda>m. (l, Some m)) ms) @ leftJoin ls rs on"
  by (simp add: leftJoin_def)

lemma leftJoin_Nil: "leftJoin [] rs on = []"
  by (simp add: leftJoin_def)

text \<open>The rows a left join makes of one left row.\<close>

lemma partners_fst:
  "j \<in> set (case filter p rs of [] \<Rightarrow> [(l, None)] | ms \<Rightarrow> map (\<lambda>m. (l, Some m)) ms) \<Longrightarrow> fst j = l"
  by (cases "filter p rs") auto

lemma partners_nonempty:
  "(case filter p rs of [] \<Rightarrow> [(l, None)] | ms \<Rightarrow> map (\<lambda>m. (l, Some m)) ms) \<noteq> []"
  by (cases "filter p rs") auto

lemma partners_count:
  assumes "list_all (\<lambda>c. col c ''id'' \<noteq> JNull) rs"
  shows "length (filter (\<lambda>j. ocol (snd j) ''id'' \<noteq> JNull)
            (case filter p rs of [] \<Rightarrow> [(l, None)] | ms \<Rightarrow> map (\<lambda>m. (l, Some m)) ms))
         = length (filter p rs)"
proof (cases "filter p rs")
  case Nil
  then show ?thesis by (simp add: ocol_def)
next
  case (Cons m ms)
  have "\<forall>x \<in> set (filter p rs). col x ''id'' \<noteq> JNull"
    using assms by (simp add: list_all_iff)
  then have "\<forall>x \<in> set (m # ms). ocol (snd (l, Some x)) ''id'' \<noteq> JNull"
    using Cons by (simp add: ocol_def)
  then have "filter (\<lambda>j. ocol (snd j) ''id'' \<noteq> JNull) (map (\<lambda>m. (l, Some m)) (m # ms))
      = map (\<lambda>m. (l, Some m)) (m # ms)"
    by (intro filter_True) auto
  then show ?thesis using Cons by simp
qed

lemma remdups_replicate_append:
  "k \<notin> set ys \<Longrightarrow> 0 < n \<Longrightarrow> remdups (replicate n k @ ys) = k # remdups ys"
proof (induction n)
  case 0
  then show ?case by simp
next
  case (Suc n)
  then show ?case by (cases n) auto
qed

lemma map_constant: "\<forall>x \<in> set xs. f x = k \<Longrightarrow> map f xs = replicate (length xs) k"
  by (induction xs) auto

lemma group_keys:
  assumes "distinct (map key ls)"
  shows "remdups (map (\<lambda>j. key (fst j)) (leftJoin ls rs on)) = map key ls"
  using assms
proof (induction ls)
  case Nil
  then show ?case by (simp add: leftJoin_Nil)
next
  case (Cons l ls)
  let ?ps = "case filter (on l) rs of [] \<Rightarrow> [(l, None)] | ms \<Rightarrow> map (\<lambda>m. (l, Some m)) ms"
  have "map (\<lambda>j. key (fst j)) ?ps = replicate (length ?ps) (key l)"
    by (rule map_constant) (auto dest: partners_fst)
  moreover have "0 < length ?ps" using partners_nonempty[of l "on l" rs] by simp
  moreover have "set (map (\<lambda>j. key (fst j)) (leftJoin ls rs on)) \<subseteq> key ` set ls"
    by (auto simp: leftJoin_def dest: partners_fst)
  then have "key l \<notin> set (map (\<lambda>j. key (fst j)) (leftJoin ls rs on))"
    using Cons.prems by auto
  ultimately show ?case
    using Cons by (simp add: leftJoin_Cons remdups_replicate_append)
qed

lemma filter_concat_none:
  "\<forall>x \<in> set xs. \<forall>j \<in> set (f x). \<not> P j \<Longrightarrow> filter P (concat (map f xs)) = []"
  by (induction xs) (auto simp: filter_empty_conv)

lemma group_rows:
  assumes "distinct (map key ls)" and "l \<in> set ls"
  shows "filter (\<lambda>j. key (fst j) = key l \<and> Q j) (leftJoin ls rs on)
       = filter Q (case filter (on l) rs of [] \<Rightarrow> [(l, None)] | ms \<Rightarrow> map (\<lambda>m. (l, Some m)) ms)"
  using assms
proof (induction ls)
  case Nil
  then show ?case by simp
next
  case (Cons a ls)
  let ?ps = "\<lambda>x. case filter (on x) rs of [] \<Rightarrow> [(x, None)] | ms \<Rightarrow> map (\<lambda>m. (x, Some m)) ms"
  show ?case
  proof (cases "a = l")
    case True
    have "key x \<noteq> key l" if "x \<in> set ls" for x
      using Cons.prems(1) True that by (force simp: image_iff)
    moreover have "fst j = x" if "j \<in> set (?ps x)" for j x
      using that by (rule partners_fst)
    ultimately have "\<forall>x \<in> set ls. \<forall>j \<in> set (?ps x). \<not> (key (fst j) = key l \<and> Q j)"
      by simp
    then have "filter (\<lambda>j. key (fst j) = key l \<and> Q j) (leftJoin ls rs on) = []"
      unfolding leftJoin_def by (rule filter_concat_none)
    moreover have "filter (\<lambda>j. key (fst j) = key l \<and> Q j) (?ps l) = filter Q (?ps l)"
      by (rule filter_cong) (auto dest: partners_fst)
    ultimately show ?thesis using True by (simp add: leftJoin_Cons)
  next
    case False
    then have l: "l \<in> set ls" using Cons.prems by simp
    then have "key a \<noteq> key l" using Cons.prems by auto
    then have "filter (\<lambda>j. key (fst j) = key l \<and> Q j) (?ps a) = []"
      by (auto simp: filter_empty_conv dest: partners_fst)
    then show ?thesis using Cons l by (simp add: leftJoin_Cons)
  qed
qed

lemma inj_group_key:
  assumes "distinct (map (\<lambda>r. col r ''id'') ls)"
  shows "distinct (map (\<lambda>r. (col r ''id'', col r ''name'')) ls)"
proof -
  have "distinct (map fst (map (\<lambda>r. (col r ''id'', col r ''name'')) ls))"
    using assms by (simp add: comp_def)
  then show ?thesis
    using distinct_map[of fst "map (\<lambda>r. (col r ''id'', col r ''name'')) ls"] by blast
qed

lemma digit_val_digit: "d < 10 \<Longrightarrow> digit_val (digit d) = d"
proof -
  assume "d < 10"
  then have "d \<in> {0,1,2,3,4,5,6,7,8,9}" by auto
  then show ?thesis by (auto simp: digit_val_def digit_def upt_conv_Cons)
qed

lemma decimal_val_snoc: "decimal_val (s @ [c]) = 10 * decimal_val s + digit_val c"
  by (simp add: decimal_val_def)

lemma decimal_val_toString: "decimal_val (toString n) = n"
proof (induction n rule: toString.induct)
  case (1 n)
  show ?case
  proof (cases "n < 10")
    case True
    then show ?thesis by (simp add: toString.simps[of n] decimal_val_def digit_val_digit)
  next
    case False
    then show ?thesis using 1 by (simp add: toString.simps[of n] decimal_val_snoc digit_val_digit)
  qed
qed

lemma decimal_val_zeros: "decimal_val (replicate k CHR ''0'' @ s) = decimal_val s"
proof -
  have z: "digit_val CHR ''0'' = 0" by (simp add: digit_val_def upt_conv_Cons)
  have "foldl (\<lambda>a c. 10 * a + digit_val c) 0 (replicate k CHR ''0'') = 0"
    by (induction k) (simp_all add: z)
  then show ?thesis by (simp add: decimal_val_def)
qed

lemma like_percent_all: "like_match ''%'' s"
  by (induction s) auto

lemma like_percent: "like_match (CHR ''%'' # q) s \<longleftrightarrow> (\<exists>pre r. s = pre @ r \<and> like_match q r)"
proof (induction s)
  case Nil
  then show ?case by (cases q) auto
next
  case (Cons c s)
  show ?case
  proof
    assume "like_match (CHR ''%'' # q) (c # s)"
    then consider "like_match q (c # s)" | "like_match (CHR ''%'' # q) s" by auto
    then show "\<exists>pre r. c # s = pre @ r \<and> like_match q r"
    proof cases
      case 1
      then have "c # s = [] @ (c # s) \<and> like_match q (c # s)" by simp
      then show ?thesis by blast
    next
      case 2
      then obtain pre r where "s = pre @ r" "like_match q r" using Cons by auto
      then have "c # s = (c # pre) @ r \<and> like_match q r" by simp
      then show ?thesis by blast
    qed
  next
    assume "\<exists>pre r. c # s = pre @ r \<and> like_match q r"
    then obtain pre r where h: "c # s = pre @ r" "like_match q r" by auto
    show "like_match (CHR ''%'' # q) (c # s)"
    proof (cases pre)
      case Nil
      then show ?thesis using h by auto
    next
      case (Cons a pre')
      then have "s = pre' @ r" using h by auto
      then have "like_match (CHR ''%'' # q) s" using h Cons.IH by auto
      then show ?thesis by auto
    qed
  qed
qed

lemma like_literal: "\<forall>c \<in> set f. \<not> like_meta c \<Longrightarrow> like_match (f @ q) s \<longleftrightarrow> (\<exists>r. s = f @ r \<and> like_match q r)"
proof (induction f arbitrary: s)
  case Nil
  then show ?case by simp
next
  case (Cons a f)
  then have a: "a \<noteq> CHR ''%''" "a \<noteq> CHR ''_''" "a \<noteq> CHR 0x5C" by (auto simp: like_meta_def)
  show ?case
  proof (cases s)
    case Nil
    then show ?thesis using a by simp
  next
    case (Cons c s')
    then show ?thesis using a Cons.IH[of s'] Cons.prems by auto
  qed
qed

lemma like_contains: "\<forall>c \<in> set f. \<not> like_meta c \<Longrightarrow> like_match (''%'' @ f @ ''%'') s \<longleftrightarrow> sublist f s"
proof -
  assume f: "\<forall>c \<in> set f. \<not> like_meta c"
  have "like_match (''%'' @ f @ ''%'') s \<longleftrightarrow> (\<exists>pre r. s = pre @ r \<and> like_match (f @ ''%'') r)"
    using like_percent[of "f @ ''%''" s] by simp
  also have "\<dots> \<longleftrightarrow> (\<exists>pre r. s = pre @ r \<and> (\<exists>r'. r = f @ r' \<and> like_match ''%'' r'))"
    using like_literal[OF f, of "''%''"] by simp
  also have "\<dots> \<longleftrightarrow> (\<exists>pre r'. s = pre @ f @ r')"
    using like_percent_all by blast
  also have "\<dots> \<longleftrightarrow> sublist f s"
    by (simp add: sublist_def)
  finally show ?thesis .
qed

lemma keeps_wildcards_ascii: "keeps_wildcards ascii_lower"
  unfolding keeps_wildcards_def
proof (intro allI impI)
  fix c assume a: "like_meta c \<or> like_meta (ascii_lower c)"
  show "ascii_lower c = c"
  proof (cases "map_of (zip ''ABCDEFGHIJKLMNOPQRSTUVWXYZ'' ''abcdefghijklmnopqrstuvwxyz'') c")
    case None
    then show ?thesis by (simp add: ascii_lower_def)
  next
    case (Some l)
    then have "(c, l) \<in> set (zip ''ABCDEFGHIJKLMNOPQRSTUVWXYZ'' ''abcdefghijklmnopqrstuvwxyz'')"
      by (rule map_of_SomeD)
    then have "\<not> like_meta c \<and> \<not> like_meta l"
      by (auto simp: like_meta_def)
    then show ?thesis using Some a by (simp add: ascii_lower_def)
  qed
qed

lemma keeps_wildcards_latin: "keeps_wildcards latin_lower"
  using keeps_wildcards_ascii
  by (auto simp: keeps_wildcards_def latin_lower_def like_meta_def)

lemma keeps_wildcards_meta: "keeps_wildcards lc \<Longrightarrow> like_meta (lc c) = like_meta c"
  unfolding keeps_wildcards_def by metis

lemma ilike_contains:
  assumes "\<forall>c \<in> set f. \<not> like_meta c" and "keeps_wildcards lc"
  shows "ilike_match lc (''%'' @ f @ ''%'') s \<longleftrightarrow> sublist (map lc f) (map lc s)"
proof -
  have "\<forall>c \<in> set (map lc f). \<not> like_meta c"
    using assms by (simp add: keeps_wildcards_meta)
  then have "like_match (''%'' @ map lc f @ ''%'') (map lc s) \<longleftrightarrow> sublist (map lc f) (map lc s)"
    by (rule like_contains)
  moreover have "lc CHR ''%'' = CHR ''%''"
    using assms(2) by (simp add: keeps_wildcards_def like_meta_def)
  ultimately show ?thesis
    by (simp add: ilike_match_def)
qed

lemma sql_like_contains:
  assumes "\<not> list_ex like_meta s" and "s \<noteq> []"
  shows "sql_like v (''%'' @ s @ ''%'') \<longleftrightarrow> sublist s (str_of v)"
proof (cases v)
  case (JStr t)
  have "\<forall>c \<in> set s. \<not> like_meta c" using assms(1) by (simp add: list_ex_iff)
  then show ?thesis using JStr like_contains[of s t] by (simp add: sql_like_def str_of_def)
qed (use assms(2) in \<open>simp_all add: sql_like_def str_of_def\<close>)

lemma sql_ilike_contains:
  assumes "\<not> list_ex like_meta s" and "s \<noteq> []" and "keeps_wildcards lc"
  shows "sql_ilike lc v (''%'' @ s @ ''%'') \<longleftrightarrow> sublist (map lc s) (map lc (str_of v))"
proof (cases v)
  case (JStr t)
  have "\<forall>c \<in> set s. \<not> like_meta c" using assms(1) by (simp add: list_ex_iff)
  then show ?thesis using JStr ilike_contains[OF _ assms(3), of s t] by (simp add: sql_ilike_def str_of_def)
qed (use assms(2) in \<open>simp_all add: sql_ilike_def str_of_def\<close>)

lemma healthStatusEnum_nonempty: "s \<in> set healthStatusEnum \<Longrightarrow> s \<noteq> []"
  by (auto simp: healthStatusEnum_def)

lemma filter_if_conditions:
  "(if 0 < length cs then filter (\<lambda>r. list_all (\<lambda>c. c r) cs) xs else xs)
     = filter (\<lambda>r. list_all (\<lambda>c. c r) cs) xs"
  by (cases cs) simp_all

lemma kind_issues_accepts: "kind_issues k v = [] \<longleftrightarrow> accepts k v"
  by (cases k; cases v) (auto simp: int4_def)

lemma field_issues_path: "i \<in> set (field_issues data f) \<Longrightarrow> path i = [zkey f]"
  by (auto simp: field_issues_def)

lemma field_issues_violates: "field_issues data f \<noteq> [] \<longleftrightarrow> violates data f"
  by (auto simp: field_issues_def violates_def kind_issues_accepts split: option.splits json.splits)

lemma issue_paths:
  "path ` set (concat (map (field_issues data) shape)) = (\<lambda>f. [zkey f]) ` {f \<in> set shape. violates data f}"
proof (intro set_eqI iffI)
  fix p assume "p \<in> path ` set (concat (map (field_issues data) shape))"
  then obtain f i where f: "f \<in> set shape" "i \<in> set (field_issues data f)" "p = path i" by auto
  then have "field_issues data f \<noteq> []" by auto
  then have "violates data f" by (simp add: field_issues_violates)
  then show "p \<in> (\<lambda>f. [zkey f]) ` {f \<in> set shape. violates data f}"
    using f field_issues_path[of i data f] by auto
next
  fix p assume "p \<in> (\<lambda>f. [zkey f]) ` {f \<in> set shape. violates data f}"
  then obtain f where f: "f \<in> set shape" "violates data f" "p = [zkey f]" by auto
  then have "field_issues data f \<noteq> []" by (simp add: field_issues_violates)
  then obtain i where i: "i \<in> set (field_issues data f)" by (cases "field_issues data f") auto
  then have "path i = p" using f field_issues_path by simp
  then show "p \<in> path ` set (concat (map (field_issues data) shape))"
    using f i by force
qed

lemma zparse_Inl:
  assumes "zparse shape v = Inl err"
  shows "\<exists>issues. err = ZodError issues \<and> issues \<noteq> []
           \<and> (\<forall>data. v = JObj data \<longrightarrow>
                 path ` set issues = (\<lambda>f. [zkey f]) ` {f \<in> set shape. violates data f})"
proof (cases v)
  case (JObj data)
  then have "err = ZodError (concat (map (field_issues data) shape))"
    and "concat (map (field_issues data) shape) \<noteq> []"
    using assms by (auto simp: zparse_def Let_def split: if_splits)
  then show ?thesis using JObj issue_paths[of data shape] by simp
qed (use assms in \<open>auto simp: zparse_def\<close>)

subsection \<open>Creating a patient\<close>

lemma generated_id_value: "decimal_val (drop 2 (generated_id n)) = n"
  by (simp add: generated_id_def padStart_def decimal_val_zeros decimal_val_toString)

lemma generated_id_inj: "generated_id j = generated_id k \<Longrightarrow> j = k"
proof -
  assume "generated_id j = generated_id k"
  then have "decimal_val (drop 2 (generated_id j)) = decimal_val (drop 2 (generated_id k))"
    by (rule arg_cong)
  then show ?thesis by (simp only: generated_id_value)
qed

lemma list_ex_positions:
  "list_ex P [1 ..< Suc n] \<longleftrightarrow> (\<exists>k. 1 \<le> k \<and> k \<le> n \<and> P k)"
proof -
  have "k \<in> set [1 ..< Suc n] \<longleftrightarrow> 1 \<le> k \<and> k \<le> n" for k
    by (simp only: set_upt atLeastLessThan_iff less_Suc_eq_le)
  then show ?thesis unfolding list_ex_iff Bex_def by blast
qed

lemma sequential_idsD:
  assumes "sequential_ids ps" and "r \<in> set ps"
  shows "\<exists>k. 1 \<le> k \<and> k \<le> length ps \<and> col r ''patientId'' = JStr (generated_id k)"
proof -
  have "\<forall>r \<in> set ps. list_ex (\<lambda>k. col r ''patientId'' = JStr (generated_id k)) [1 ..< Suc (length ps)]"
    using assms(1) unfolding sequential_ids_def list_all_iff .
  then have "list_ex (\<lambda>k. col r ''patientId'' = JStr (generated_id k)) [1 ..< Suc (length ps)]"
    using assms(2) by (rule bspec)
  then show ?thesis unfolding list_ex_positions .
qed

lemma sequential_idsI:
  assumes "\<And>r. r \<in> set ps \<Longrightarrow>
             \<exists>k. 1 \<le> k \<and> k \<le> length ps \<and> col r ''patientId'' = JStr (generated_id k)"
  shows "sequential_ids ps"
proof -
  have "list_ex (\<lambda>k. col r ''patientId'' = JStr (generated_id k)) [1 ..< Suc (length ps)]"
    if "r \<in> set ps" for r
    using assms[OF that] unfolding list_ex_positions .
  then show ?thesis unfolding sequential_ids_def list_all_iff by (rule ballI)
qed

lemma sequential_ids_fresh:
  assumes "sequential_ids ps"
  shows "list_all (\<lambda>r. col r ''patientId'' \<noteq> JStr (generated_id (length ps + 1))) ps"
  unfolding list_all_iff
proof (intro ballI notI)
  fix r assume r: "r \<in> set ps" and a: "col r ''patientId'' = JStr (generated_id (length ps + 1))"
  obtain k where k: "k \<le> length ps" and c: "col r ''patientId'' = JStr (generated_id k)"
    using sequential_idsD[OF assms r] by (elim exE conjE)
  have "JStr (generated_id k) = JStr (generated_id (length ps + 1))"
    using a c by simp
  then have "generated_id k = generated_id (length ps + 1)" by (simp only: json.inject)
  then have "k = length ps + 1" by (rule generated_id_inj)
  then show False using k by arith
qed

lemma sequential_ids_snoc:
  assumes "sequential_ids ps" and "col r ''patientId'' = JStr (generated_id (length ps + 1))"
  shows "sequential_ids (ps @ [r])"
proof (rule sequential_idsI)
  fix x assume "x \<in> set (ps @ [r])"
  then consider "x \<in> set ps" | "x = r" by auto
  then show "\<exists>k. 1 \<le> k \<and> k \<le> length (ps @ [r]) \<and> col x ''patientId'' = JStr (generated_id k)"
  proof cases
    case 1
    obtain k where "1 \<le> k" "k \<le> length ps" "col x ''patientId'' = JStr (generated_id k)"
      using sequential_idsD[OF assms(1) 1] by (elim exE conjE)
    then have "1 \<le> k \<and> k \<le> length (ps @ [r]) \<and> col x ''patientId'' = JStr (generated_id k)"
      by simp
    then show ?thesis ..
  next
    case 2
    have "1 \<le> length ps + 1 \<and> length ps + 1 \<le> length (ps @ [r])
        \<and> col x ''patientId'' = JStr (generated_id (length ps + 1))"
      using assms(2) 2 by simp
    then show ?thesis ..
  qed
qed

lemma length_toString: "n < 10 ^ k \<Longrightarrow> 0 < k \<Longrightarrow> length (toString n) \<le> k"
proof (induction n arbitrary: k rule: toString.induct)
  case (1 n)
  show ?case
  proof (cases "n < 10")
    case True
    then show ?thesis using 1(3) by (simp add: toString.simps[of n])
  next
    case False
    obtain m where k: "k = Suc m" using 1(3) by (cases k) auto
    have m: "0 < m"
    proof (rule ccontr)
      assume "\<not> 0 < m"
      then have "n < 10" using 1(2) k by simp
      then show False using False by simp
    qed
    have "n < 10 * 10 ^ m" using 1(2) k by simp
    then have "n div 10 < 10 ^ m" by (simp add: less_mult_imp_div_less mult.commute)
    then have "length (toString (n div 10)) \<le> m" using 1(1)[OF False _ m] by simp
    then show ?thesis using False k by (simp add: toString.simps[of n])
  qed
qed

lemma generated_id_length: "n < 1000000 \<Longrightarrow> length (generated_id n) = 8"
proof -
  assume "n < 1000000"
  then have "n < 10 ^ 6" by simp
  then have "length (toString n) \<le> 6" by (rule length_toString) simp
  then show ?thesis by (simp add: generated_id_def padStart_def)
qed

lemma patients_columns:
  "columns patients =
    [\<lparr>ckey = ''id'', ctype = PgVarchar, isNotNull = True, hasDefault = GenRandomUuid,
      isPrimaryKey = True, isUnique = False, refersTo = None\<rparr>,
     \<lparr>ckey = ''patientId'', ctype = PgText, isNotNull = True, hasDefault = NoDefault,
      isPrimaryKey = False, isUnique = True, refersTo = None\<rparr>,
     \<lparr>ckey = ''name'', ctype = PgText, isNotNull = True, hasDefault = NoDefault,
      isPrimaryKey = False, isUnique = False, refersTo = None\<rparr>,
     \<lparr>ckey = ''age'', ctype = PgInteger, isNotNull = True, hasDefault = NoDefault,
      isPrimaryKey = False, isUnique = False, refersTo = None\<rparr>,
     \<lparr>ckey = ''gender'', ctype = PgEnum genderEnum, isNotNull = True, hasDefault = NoDefault,
      isPrimaryKey = False, isUnique = False, refersTo = None\<rparr>,
     \<lparr>ckey = ''phone'', ctype = PgText, isNotNull = False, hasDefault = NoDefault,
      isPrimaryKey = False, isUnique = False, refersTo = None\<rparr>,
     \<lparr>ckey = ''address'', ctype = PgText, isNotNull = False, hasDefault = NoDefault,
      isPrimaryKey = False, isUnique = False, refersTo = None\<rparr>,
     \<lparr>ckey = ''district'', ctype = PgText, isNotNull = True, hasDefault = NoDefault,
      isPrimaryKey = False, isUnique = False, refersTo = None\<rparr>,
     \<lparr>ckey = ''workplace'', ctype = PgText, isNotNull = False, hasDefault = NoDefault,
      isPrimaryKey = False, isUnique = False, refersTo = None\<rparr>,
     \<lparr>ckey = ''employerName'', ctype = PgText, isNotNull = False, hasDefault = NoDefault,
      isPrimaryKey = False, isUnique = False, refersTo = None\<rparr>,
     \<lparr>ckey = ''emergencyContact'', ctype = PgText, isNotNull = False, hasDefault = NoDefault,
      isPrimaryKey = False, isUnique = False, refersTo = None\<rparr>,
     \<lparr>ckey = ''emergencyPhone'', ctype = PgText, isNotNull = False, hasDefault = NoDefault,
      isPrimaryKey = False, isUnique = False, refersTo = None\<rparr>,
     \<lparr>ckey = ''healthStatus'', ctype = PgEnum healthStatusEnum, isNotNull = True,
      hasDefault = DefaultValue (JStr ''healthy''), isPrimaryKey = False, isUnique = False,
      refersTo = None\<rparr>,
     \<lparr>ckey = ''registeredAt'', ctype = PgTimestamp, isNotNull = True, hasDefault = DefaultNow,
      isPrimaryKey = False, isUnique = False, refersTo = None\<rparr>,
     \<lparr>ckey = ''lastCheckup'', ctype = PgDate, isNotNull = False, hasDefault = NoDefault,
      isPrimaryKey = False, isUnique = False, refersTo = None\<rparr>,
     \<lparr>ckey = ''registeredBy'', ctype = PgVarchar, isNotNull = False, hasDefault = NoDefault,
      isPrimaryKey = False, isUnique = False, refersTo = Some Users\<rparr>]"
  by (simp add: patients_def column_of_def notNull_def primaryKey_def unique_col_def default_col_def
      references_def)

lemma map_of_strip_eq:
  "map_of (strip shape raw) k = (if k \<in> zkey ` set shape then map_of raw k else None)"
proof (induction shape)
  case Nil
  then show ?case by (simp add: strip_def List.map_filter_def)
next
  case (Cons f shape)
  have s: "strip (f # shape) raw
      = (case map_of raw (zkey f) of None \<Rightarrow> [] | Some v \<Rightarrow> [(zkey f, v)]) @ strip shape raw"
    by (simp add: strip_def List.map_filter_def split: option.splits)
  show ?case
  proof (cases "map_of raw (zkey f)")
    case None
    then show ?thesis using Cons s by auto
  next
    case (Some v)
    then show ?thesis using Cons s by auto
  qed
qed

lemma zparse_Inr:
  assumes "zparse shape reqBody = Inr data"
  shows "\<exists>raw. reqBody = JObj raw \<and> data = strip shape raw \<and> (\<forall>f \<in> set shape. \<not> violates raw f)"
proof (cases reqBody)
  case (JObj raw)
  then have c: "concat (map (field_issues raw) shape) = []" and d: "data = strip shape raw"
    using assms by (auto simp: zparse_def Let_def split: if_splits)
  have "\<not> violates raw f" if "f \<in> set shape" for f
  proof -
    have "field_issues raw f = []" using c that by auto
    then show ?thesis using field_issues_violates[of raw f] by simp
  qed
  then show ?thesis using JObj d by blast
qed (use assms in \<open>auto simp: zparse_def\<close>)

lemma violates_cong: "map_of a (zkey f) = map_of b (zkey f) \<Longrightarrow> violates a f = violates b f"
  by (simp add: violates_def)

text \<open>A value that the validator of a column accepts is stored by the column.\<close>

lemma accepted_value_stored:
  assumes "accepts (zkind (zod_of_column c)) v"
    and "\<forall>s. ctype c = PgDate \<and> v = JStr s \<longrightarrow> parseDate e s \<noteq> None"
  shows "\<exists>w. coerce e (ctype c) v = Some w \<and> w \<noteq> JNull"
  using assms
  by (cases "ctype c"; cases v) (auto simp: zod_of_column_def)

lemma validated_column:
  assumes "\<not> violates vals (zod_of_column c)"
    and "\<forall>s. ctype c = PgDate \<and> map_of vals (ckey c) = Some (JStr s) \<longrightarrow> parseDate e s \<noteq> None"
    and "hasDefault c \<noteq> DefaultValue JNull"
  shows "\<exists>w. insert_value e vals c = Some w \<and> (isNotNull c \<longrightarrow> w \<noteq> JNull)"
proof (cases "map_of vals (ckey c)")
  case None
  then have "\<not> isNotNull c \<or> hasDefault c \<noteq> NoDefault"
    using assms(1) by (simp add: violates_def zod_of_column_def)
  then show ?thesis using None assms(3)
    by (cases "hasDefault c") (auto simp: insert_value_def)
next
  case (Some v)
  show ?thesis
  proof (cases "v = JNull")
    case True
    then have "\<not> isNotNull c" using assms(1) Some by (simp add: violates_def zod_of_column_def)
    then show ?thesis using Some True by (simp add: insert_value_def)
  next
    case False
    then have "accepts (zkind (zod_of_column c)) v"
      using assms(1) Some by (cases v) (simp_all add: violates_def zod_of_column_def)
    then have "\<exists>w. coerce e (ctype c) v = Some w \<and> w \<noteq> JNull"
      using assms(2) Some by (intro accepted_value_stored) auto
    then show ?thesis using Some by (auto simp: insert_value_def)
  qed
qed

lemma coerce_all_Some:
  assumes "\<forall>c \<in> set cs. \<exists>w. val c = Some w"
  shows "\<exists>r. coerce_all cs val = Some r"
  using assms
proof (induction cs)
  case Nil
  then show ?case by (simp add: coerce_all_def)
next
  case (Cons c cs)
  then obtain w r where "val c = Some w" "coerce_all cs val = Some r"
    by auto
  then show ?case by (simp add: coerce_all_def)
qed

lemma patients_system_column:
  assumes "c \<in> set (columns patients)" and "ckey c \<in> set system_keys"
  shows "(ckey c = ''patientId'' \<and> ctype c = PgText)
         \<or> (ckey c \<noteq> ''patientId'' \<and> hasDefault c \<noteq> NoDefault)"
  using assms unfolding patients_columns system_keys_def by auto

lemma patients_date_column:
  "c \<in> set (columns patients) \<Longrightarrow> ctype c = PgDate \<Longrightarrow> ckey c = ''lastCheckup''"
  unfolding patients_columns by auto

lemma patients_defaults:
  "c \<in> set (columns patients) \<Longrightarrow> hasDefault c \<noteq> DefaultValue JNull"
  unfolding patients_columns by auto

lemma patients_unique_columns:
  "c \<in> set (columns patients) \<Longrightarrow> isPrimaryKey c \<or> isUnique c \<Longrightarrow>
     ckey c = ''id'' \<or> ckey c = ''patientId''"
  unfolding patients_columns by auto

lemma patients_reference_column:
  "c \<in> set (columns patients) \<Longrightarrow> refersTo c = Some t \<Longrightarrow>
     ckey c = ''registeredBy'' \<and> t = Users \<and> ctype c = PgVarchar"
  unfolding patients_columns by auto

lemma schema_field_of_column:
  assumes "c \<in> set (columns patients)" and "ckey c \<notin> set system_keys"
  shows "zod_of_column c \<in> set insertPatientSchema"
proof -
  have "zkey (zod_of_column c) = ckey c" by (simp add: zod_of_column_def)
  then show ?thesis
    using assms by (simp add: insertPatientSchema_def omit_def createInsertSchema_def system_keys_def)
qed

text \<open>The row \<open>createPatient\<close> stores for a validated payload, and that it does store it.\<close>

lemma createPatient_inserts:
  assumes seq: "sequential_ids (rows d Patients)"
    and zp: "zparse insertPatientSchema reqBody = Inr data"
    and ins: "insertable e data d"
  shows "\<exists>r. createPatient e data d = Inr (r, put_rows Patients (rows d Patients @ [r]) d)
           \<and> col r ''patientId'' = JStr (generated_id (getPatientsCount d + 1))
           \<and> (\<forall>c \<in> set (columns patients). \<forall>v. map_of data (ckey c) = Some v
                 \<longrightarrow> coerce e (ctype c) v = Some (col r (ckey c)))"
proof -
  define gid where "gid = generated_id (getPatientsCount d + 1)"
  define vals where "vals = AList.update ''patientId'' (JStr gid) data"
  obtain raw where raw: "reqBody = JObj raw" "data = strip insertPatientSchema raw"
    "\<forall>f \<in> set insertPatientSchema. \<not> violates raw f"
    using zparse_Inr[OF zp] by blast
  have mv: "map_of vals k = (if k = ''patientId'' then Some (JStr gid) else map_of data k)" for k
    by (simp add: vals_def update_conv')
  have md: "map_of data k = (if k \<in> zkey ` set insertPatientSchema then map_of raw k else None)" for k
    unfolding raw(2) by (rule map_of_strip_eq)
  have sysnone: "map_of data k = None" if "k \<in> set system_keys" for k
    using zparse_insertPatient_no_system_key[OF zp that] .
  have valid: "\<not> violates vals (zod_of_column c)" if c: "c \<in> set (columns patients)" for c
  proof (cases "ckey c \<in> set system_keys")
    case True
    then have n: "map_of data (ckey c) = None" by (rule sysnone)
    from patients_system_column[OF c True] show ?thesis
    proof
      assume "ckey c = ''patientId'' \<and> ctype c = PgText"
      then show ?thesis by (simp add: violates_def zod_of_column_def mv)
    next
      assume "ckey c \<noteq> ''patientId'' \<and> hasDefault c \<noteq> NoDefault"
      then show ?thesis using n by (simp add: violates_def zod_of_column_def mv)
    qed
  next
    case False
    then have f: "zod_of_column c \<in> set insertPatientSchema" using c by (rule schema_field_of_column[rotated])
    have k: "zkey (zod_of_column c) = ckey c" by (simp add: zod_of_column_def)
    have "ckey c \<in> zkey ` set insertPatientSchema" using f k by (metis image_eqI)
    moreover have "ckey c \<noteq> ''patientId''" using False by (auto simp: system_keys_def)
    ultimately have "map_of vals (zkey (zod_of_column c)) = map_of raw (zkey (zod_of_column c))"
      by (simp add: mv md k)
    then have "violates vals (zod_of_column c) = violates raw (zod_of_column c)"
      by (rule violates_cong)
    then show ?thesis using raw(3) f by simp
  qed
  have dates: "\<forall>s. ctype c = PgDate \<and> map_of vals (ckey c) = Some (JStr s) \<longrightarrow> parseDate e s \<noteq> None"
    if c: "c \<in> set (columns patients)" for c
  proof (intro allI impI)
    fix s assume a: "ctype c = PgDate \<and> map_of vals (ckey c) = Some (JStr s)"
    then have "ckey c = ''lastCheckup''" using c patients_date_column by blast
    then have "map_of data ''lastCheckup'' = Some (JStr s)" using a by (simp add: mv)
    then show "parseDate e s \<noteq> None" using ins by (simp add: insertable_def)
  qed
  have stored: "\<exists>w. insert_value e vals c = Some w \<and> (isNotNull c \<longrightarrow> w \<noteq> JNull)"
    if c: "c \<in> set (columns patients)" for c
    using valid[OF c] dates[OF c] patients_defaults[OF c] by (rule validated_column)
  then have "\<forall>c \<in> set (columns patients). \<exists>w. insert_value e vals c = Some w"
    by blast
  then obtain r where r: "coerce_all (columns patients) (insert_value e vals) = Some r"
    using coerce_all_Some by blast
  have look: "insert_value e vals c = Some (col r (ckey c))"
    if c: "c \<in> set (columns patients)" for c
    using coerce_all_lookup[OF r patients_distinct c] by (auto simp: col_def)
  have nn: "not_null_ok patients r"
    unfolding not_null_ok_def list_all_iff using stored look by fastforce
  have rid: "col r ''id'' = JStr (uuid e)"
    using look[OF patients_system_columns(1)] sysnone[of "''id''"]
    by (simp add: insert_value_def mv column_of_def primaryKey_def default_col_def system_keys_def)
  have rpid: "col r ''patientId'' = JStr gid"
    using look[OF patients_system_columns(2)]
    by (simp add: insert_value_def mv column_of_def notNull_def unique_col_def)
  have fresh: "list_all (\<lambda>r'. col r' ''patientId'' \<noteq> JStr gid) (rows d Patients)"
    using sequential_ids_fresh[OF seq] by (simp add: gid_def getPatientsCount_def)
  have uq: "unique_ok patients r (rows d Patients)"
    unfolding unique_ok_def list_all_iff
  proof (intro ballI impI)
    fix c assume c: "c \<in> set (columns patients)" and "isPrimaryKey c \<or> isUnique c"
    then consider "ckey c = ''id''" | "ckey c = ''patientId''" using patients_unique_columns by blast
    then show "col r (ckey c) = JNull \<or> (\<forall>r' \<in> set (rows d Patients). col r' (ckey c) \<noteq> col r (ckey c))"
    proof cases
      case 1
      then show ?thesis using ins rid by (simp add: insertable_def list_all_iff)
    next
      case 2
      then show ?thesis using fresh rpid by (simp add: list_all_iff)
    qed
  qed
  have fk: "fk_ok d patients r"
    unfolding fk_ok_def list_all_iff
  proof (intro ballI)
    fix c assume c: "c \<in> set (columns patients)"
    show "case refersTo c of None \<Rightarrow> True
          | Some t' \<Rightarrow> col r (ckey c) = JNull \<or> list_ex (\<lambda>r'. col r' ''id'' = col r (ckey c)) (rows d t')"
    proof (cases "refersTo c")
      case None
      then show ?thesis by simp
    next
      case (Some t')
      then have k: "ckey c = ''registeredBy''" "t' = Users" "ctype c = PgVarchar"
        using patients_reference_column[OF c] by simp_all
      have "hasDefault c = NoDefault" using c Some unfolding patients_columns by auto
      then have iv: "insert_value e vals c
          = (case map_of data ''registeredBy'' of Some v \<Rightarrow> coerce e PgVarchar v | None \<Rightarrow> Some JNull)"
        by (simp add: insert_value_def mv k split: option.splits)
      have nv: "\<not> violates vals (zod_of_column c)" using c by (rule valid)
      have "col r ''registeredBy'' = JNull
            \<or> list_ex (\<lambda>r'. col r' ''id'' = col r ''registeredBy'') (rows d Users)"
      proof (cases "map_of data ''registeredBy''")
        case None
        then show ?thesis using look[OF c] iv k by simp
      next
        case (Some v)
        then have co: "coerce e PgVarchar v = Some (col r ''registeredBy'')" using look[OF c] iv k by simp
        show ?thesis
        proof (cases v)
          case JNull
          then show ?thesis using co by simp
        next
          case (JStr u)
          then have "col r ''registeredBy'' = JStr u" using co by simp
          moreover have "list_ex (\<lambda>r'. col r' ''id'' = JStr u) (rows d Users)"
            using ins Some JStr by (simp add: insertable_def)
          ultimately show ?thesis by simp
        qed (use nv Some k in \<open>simp_all add: violates_def zod_of_column_def mv\<close>)
      qed
      then show ?thesis using Some k by simp
    qed
  qed
  have cp: "createPatient e data d = Inr (r, put_rows Patients (rows d Patients @ [r]) d)"
    using r nn uq fk
    by (simp add: createPatient_def insert_returning_def Let_def vals_def gid_def generated_id_def patients_def)
  have sup: "coerce e (ctype c) v = Some (col r (ckey c))"
    if c: "c \<in> set (columns patients)" and v: "map_of data (ckey c) = Some v" for c v
  proof -
    have "ckey c \<noteq> ''patientId''" using v sysnone[of "''patientId''"] by (auto simp: system_keys_def)
    then have "insert_value e vals c = coerce e (ctype c) v" using v by (simp add: insert_value_def mv)
    then show ?thesis using look[OF c] by simp
  qed
  show ?thesis using cp rpid sup unfolding gid_def by blast
qed

text \<open>
  What holds of the identifier in a table that only \<open>createPatient\<close> has filled, where
  every patient id is the generated identifier of a position from 1 to the number of
  rows: for a payload that the insert schema accepted and the database takes (a fresh
  id, a readable date, an existing registering user), \<open>createPatient\<close> generates \<open>MW\<close>
  followed by the count plus one in decimal, padded with zeros to six digits (longer
  from one million on), and appends one row that holds the supplied fields and this
  identifier. There the identifier differs from the patient id of every existing row,
  and the new table is again of that kind.
\<close>

lemma createPatient_in_sequence:
  assumes "sequential_ids (rows d Patients)"
    and "zparse insertPatientSchema reqBody = Inr data"
    and "insertable e data d"
  shows "\<exists>r. createPatient e data d = Inr (r, put_rows Patients (rows d Patients @ [r]) d)
     \<and> col r ''patientId'' = JStr (''MW'' @ padStart 6 CHR ''0'' (toString (getPatientsCount d + 1)))
     \<and> list_all (\<lambda>r'. col r' ''patientId'' \<noteq> col r ''patientId'') (rows d Patients)
     \<and> (\<forall>c \<in> set (columns patients). \<forall>v. map_of data (ckey c) = Some v
           \<longrightarrow> coerce e (ctype c) v = Some (col r (ckey c)))
     \<and> sequential_ids (rows d Patients @ [r])
     \<and> decimal_val (drop 2 (str_of (col r ''patientId''))) = getPatientsCount d + 1
     \<and> (getPatientsCount d + 1 < 1000000 \<longrightarrow> length (str_of (col r ''patientId'')) = 8)"
proof -
  obtain r where r: "createPatient e data d = Inr (r, put_rows Patients (rows d Patients @ [r]) d)"
    "col r ''patientId'' = JStr (generated_id (getPatientsCount d + 1))"
    "\<forall>c \<in> set (columns patients). \<forall>v. map_of data (ckey c) = Some v
           \<longrightarrow> coerce e (ctype c) v = Some (col r (ckey c))"
    using createPatient_inserts[OF assms] by blast
  have n: "getPatientsCount d = length (rows d Patients)" by (simp add: getPatientsCount_def)
  have a: "col r ''patientId'' = JStr (''MW'' @ padStart 6 CHR ''0'' (toString (getPatientsCount d + 1)))"
    using r(2) by (simp only: generated_id_def)
  have b: "list_all (\<lambda>r'. col r' ''patientId'' \<noteq> col r ''patientId'') (rows d Patients)"
    using sequential_ids_fresh[OF assms(1)] unfolding r(2) n .
  have c: "sequential_ids (rows d Patients @ [r])"
    using assms(1) r(2) unfolding n by (rule sequential_ids_snoc)
  have s: "str_of (col r ''patientId'') = generated_id (getPatientsCount d + 1)"
    unfolding r(2) by (simp add: str_of_def)
  have v: "decimal_val (drop 2 (str_of (col r ''patientId''))) = getPatientsCount d + 1"
    unfolding s by (rule generated_id_value)
  have l: "getPatientsCount d + 1 < 1000000 \<longrightarrow> length (str_of (col r ''patientId'')) = 8"
    unfolding s using generated_id_length by blast
  show ?thesis using r(1) a b r(3) c v l by blast
qed

lemma sequential_ids_empty: "sequential_ids []"
  by (simp add: sequential_ids_def)

lemma createPatient_in_sequence_sample:
  "sequential_ids (rows db_empty Patients) \<and> sequential_ids (rows db_one Patients)
   \<and> zparse insertPatientSchema (JObj payload_asha) = Inr payload_asha
   \<and> insertable env1 payload_asha db_one
   \<and> createPatient env1 payload_asha db_one
       = Inr (patient_row ''7c1d'' ''MW000002'' ''Asha'' ''Pune'' ''healthy'' 2000,
              db_one\<lparr>t_patients := t_patients db_one
                        @ [patient_row ''7c1d'' ''MW000002'' ''Asha'' ''Pune'' ''healthy'' 2000]\<rparr>)
   \<and> ''MW'' @ padStart 6 CHR ''0'' (toString (41 + 1)) = ''MW000042''"
  by code_simp

text \<open>The row that \<open>createPatient\<close> hands to the database carries the generated identifier.\<close>

lemma generated_patientId_in_row:
  assumes "coerce_all (columns patients) (insert_value e (AList.update ''patientId'' (JStr g) data)) = Some r"
  shows "col r ''patientId'' = JStr g"
  using coerce_all_lookup[OF assms patients_distinct patients_system_columns(2)]
  by (simp add: insert_value_def update_conv' column_of_def notNull_def unique_col_def col_def)

lemma patientId_unique_column:
  "list_ex (\<lambda>c. ckey c = ''patientId'' \<and> isUnique c) (columns patients)"
  unfolding patients_columns by simp

lemma duplicate_patientId_refused:
  assumes "col r ''patientId'' = JStr g"
    and "list_ex (\<lambda>r'. col r' ''patientId'' = JStr g) ps"
  shows "\<not> unique_ok patients r ps"
proof
  assume u: "unique_ok patients r ps"
  obtain c where c: "c \<in> set (columns patients)" "ckey c = ''patientId''" "isUnique c"
    using patientId_unique_column unfolding list_ex_iff by blast
  have "col r (ckey c) = JNull \<or> list_all (\<lambda>r'. col r' (ckey c) \<noteq> col r (ckey c)) ps"
    using u c(1,3) unfolding unique_ok_def list_all_iff by blast
  then have "list_all (\<lambda>r'. col r' ''patientId'' \<noteq> JStr g) ps"
    using assms(1) c(2) by simp
  then show False using assms(2) unfolding list_all_iff list_ex_iff by blast
qed

text \<open>
  C1: \<open>createPatient\<close> reads the count \<open>n\<close> and generates \<open>MW\<close> followed by \<open>n + 1\<close>,
  padded with zeros to six digits, from the count alone; it never looks at the patient
  ids the table holds. So the identifier is not unique among them in every state: when
  a row already holds the identifier of \<open>n + 1\<close>, \<open>createPatient\<close> generates that
  identifier again, whatever the payload. The unique column \<open>patientId\<close> then refuses
  the row, unless the database refuses it before for a value it cannot read, and no
  patient can be created: \<open>createPatient\<close> returns an error, and \<open>POST /api/patients\<close>
  answers 500 to every payload that its schema accepts, with the table unchanged.
\<close>

theorem createPatient_duplicate_id:
  assumes "list_ex (\<lambda>r. col r ''patientId''
                          = JStr (''MW'' @ padStart 6 CHR ''0'' (toString (getPatientsCount d + 1))))
             (rows d Patients)"
  shows "createPatient e data d \<in> {Inl UniqueViolation, Inl InvalidInput, Inl NotNullViolation}
     \<and> (not_null_ok patients r
          \<and> coerce_all (columns patients)
              (insert_value e (AList.update ''patientId''
                 (JStr (''MW'' @ padStart 6 CHR ''0'' (toString (getPatientsCount d + 1)))) data)) = Some r
        \<longrightarrow> createPatient e data d = Inl UniqueViolation)
     \<and> (zparse insertPatientSchema reqBody = Inr data
        \<longrightarrow> route_post_patients e reqBody d
              = (\<lparr>statusCode = 500, body = Some (JObj [(''message'', JStr ''Failed to create patient'')])\<rparr>, d))"
proof -
  define g where "g = ''MW'' @ padStart 6 CHR ''0'' (toString (getPatientsCount d + 1))"
  define vals where "vals = AList.update ''patientId'' (JStr g) data"
  have ex: "list_ex (\<lambda>r. col r ''patientId'' = JStr g) (rows d Patients)"
    using assms unfolding g_def .
  have cp: "createPatient e data d = insert_returning e patients vals d"
    by (simp add: createPatient_def Let_def vals_def g_def)
  have tn: "tname patients = Patients" by (simp add: patients_def)
  have refused: "insert_returning e patients vals d
      = (if not_null_ok patients x then Inl UniqueViolation else Inl NotNullViolation)"
    if x: "coerce_all (columns patients) (insert_value e vals) = Some x" for x
  proof -
    have "col x ''patientId'' = JStr g"
      using x unfolding vals_def by (rule generated_patientId_in_row)
    then have "\<not> unique_ok patients x (rows d Patients)"
      using ex by (rule duplicate_patientId_refused)
    then show ?thesis using x by (simp add: insert_returning_def tn)
  qed
  have a: "createPatient e data d \<in> {Inl UniqueViolation, Inl InvalidInput, Inl NotNullViolation}"
  proof (cases "coerce_all (columns patients) (insert_value e vals)")
    case None
    then show ?thesis unfolding cp by (simp add: insert_returning_def)
  next
    case (Some x)
    then show ?thesis unfolding cp using refused[OF Some] by simp
  qed
  have b: "createPatient e data d = Inl UniqueViolation"
    if "not_null_ok patients r" "coerce_all (columns patients) (insert_value e vals) = Some r"
    unfolding cp using refused[OF that(2)] that(1) by simp
  have c: "route_post_patients e reqBody d
      = (\<lparr>statusCode = 500, body = Some (JObj [(''message'', JStr ''Failed to create patient'')])\<rparr>, d)"
    if "zparse insertPatientSchema reqBody = Inr data"
    using a that
    by (auto simp: route_post_patients_def post_handler_def respond_def message_def)
  show ?thesis using a b c unfolding vals_def g_def by blast
qed

text \<open>
  Such a state is reached through the routes themselves. The first patient gets
  \<open>MW000001\<close>; an update, as \<open>PUT /api/patients/:id\<close> passes it on unvalidated, changes
  that patient id to \<open>MW000002\<close>; the count is still 1, so the next \<open>createPatient\<close>
  generates \<open>MW000002\<close>, which the table already holds, and the insert is refused.
\<close>

theorem createPatient_duplicate_id_witness:
  "createPatient env0 payload_asha db_empty
     = Inr (patient_row ''0b5e'' ''MW000001'' ''Asha'' ''Pune'' ''healthy'' 1000, db_one)
   \<and> route_put_patient env0 ''0b5e'' [(''patientId'', JStr ''MW000002'')] db_one
     = (\<lparr>statusCode = 200,
         body = Some (JObj (patient_row ''0b5e'' ''MW000002'' ''Asha'' ''Pune'' ''healthy'' 1000))\<rparr>,
        db_renumbered)
   \<and> list_ex (\<lambda>r. col r ''patientId''
                     = JStr (''MW'' @ padStart 6 CHR ''0'' (toString (getPatientsCount db_renumbered + 1))))
        (rows db_renumbered Patients)
   \<and> ''MW'' @ padStart 6 CHR ''0'' (toString (getPatientsCount db_renumbered + 1)) = ''MW000002''
   \<and> zparse insertPatientSchema (JObj payload_asha) = Inr payload_asha
   \<and> createPatient env1 payload_asha db_renumbered = Inl UniqueViolation
   \<and> route_post_patients env1 (JObj payload_asha) db_renumbered
       = (\<lparr>statusCode = 500, body = Some (JObj [(''message'', JStr ''Failed to create patient'')])\<rparr>,
          db_renumbered)"
proof -
  have a: "createPatient env0 payload_asha db_empty
     = Inr (patient_row ''0b5e'' ''MW000001'' ''Asha'' ''Pune'' ''healthy'' 1000, db_one)"
    by code_simp
  have b: "route_put_patient env0 ''0b5e'' [(''patientId'', JStr ''MW000002'')] db_one
     = (\<lparr>statusCode = 200,
         body = Some (JObj (patient_row ''0b5e'' ''MW000002'' ''Asha'' ''Pune'' ''healthy'' 1000))\<rparr>,
        db_renumbered)"
    by code_simp
  have h: "list_ex (\<lambda>r. col r ''patientId''
                     = JStr (''MW'' @ padStart 6 CHR ''0'' (toString (getPatientsCount db_renumbered + 1))))
        (rows db_renumbered Patients)"
    by code_simp
  have g: "''MW'' @ padStart 6 CHR ''0'' (toString (getPatientsCount db_renumbered + 1)) = ''MW000002''"
    by code_simp
  have z: "zparse insertPatientSchema (JObj payload_asha) = Inr payload_asha"
    by code_simp
  have n: "not_null_ok patients (patient_row ''7c1d'' ''MW000002'' ''Asha'' ''Pune'' ''healthy'' 2000)"
    by code_simp
  have r: "coerce_all (columns patients)
             (insert_value env1 (AList.update ''patientId''
                (JStr (''MW'' @ padStart 6 CHR ''0'' (toString (getPatientsCount db_renumbered + 1))))
                payload_asha))
         = Some (patient_row ''7c1d'' ''MW000002'' ''Asha'' ''Pune'' ''healthy'' 2000)"
    by code_simp
  show ?thesis
    using a b h g z n r
      createPatient_duplicate_id[OF h, where e = env1 and data = payload_asha
        and r = "patient_row ''7c1d'' ''MW000002'' ''Asha'' ''Pune'' ''healthy'' 2000"
        and reqBody = "JObj payload_asha"]
    by simp
qed

subsection \<open>Filtering patients\<close>

text \<open>The three groups of conditions of \<open>getPatients\<close>, each against the specification's words.\<close>

lemma district_condition:
  assumes "plain t"
  shows "list_all (\<lambda>c. c r)
           (case t of
              Some s \<Rightarrow> if s \<noteq> [] then [\<lambda>r. sql_like (col r ''district'') (''%'' @ s @ ''%'')] else []
            | None \<Rightarrow> [])
         = (case t of None \<Rightarrow> True | Some s \<Rightarrow> sublist s (str_of (col r ''district'')))"
proof (cases t)
  case None
  then show ?thesis by simp
next
  case (Some s)
  then show ?thesis using assms sql_like_contains[of s "col r ''district''"]
    by (cases "s = []") (simp_all add: plain_def)
qed

lemma healthStatus_condition:
  assumes "case t of None \<Rightarrow> True | Some s \<Rightarrow> s \<in> set healthStatusEnum"
  shows "list_all (\<lambda>c. c r)
           (case t of
              Some s \<Rightarrow> if s \<noteq> [] then [\<lambda>r. sql_eq (col r ''healthStatus'') (JStr s)] else []
            | None \<Rightarrow> [])
         = (case t of None \<Rightarrow> True | Some s \<Rightarrow> col r ''healthStatus'' = JStr s)"
proof (cases t)
  case None
  then show ?thesis by simp
next
  case (Some s)
  then have "s \<noteq> []" using assms healthStatusEnum_nonempty by simp
  then show ?thesis using Some by (simp add: sql_eq_JStr)
qed

lemma search_condition:
  assumes "plain t" and "keeps_wildcards lc"
  shows "list_all (\<lambda>c. c r)
           (case t of
              Some s \<Rightarrow>
                if s \<noteq> []
                then [\<lambda>r. sql_ilike lc (col r ''name'') (''%'' @ s @ ''%'')
                            \<or> sql_ilike lc (col r ''patientId'') (''%'' @ s @ ''%'')]
                else []
            | None \<Rightarrow> [])
         = (case t of
              None \<Rightarrow> True
            | Some s \<Rightarrow> sublist (map lc s) (map lc (str_of (col r ''name'')))
                        \<or> sublist (map lc s) (map lc (str_of (col r ''patientId''))))"
proof (cases t)
  case None
  then show ?thesis by simp
next
  case (Some s)
  then show ?thesis
    using assms(1) sql_ilike_contains[OF _ _ assms(2), of s "col r ''name''"]
      sql_ilike_contains[OF _ _ assms(2), of s "col r ''patientId''"]
    by (cases "s = []") (simp_all add: plain_def)
qed

lemma getPatients_plain:
  assumes "plain (district f)" and "plain (search f)"
    and "case healthStatus f of None \<Rightarrow> True | Some s \<Rightarrow> s \<in> set healthStatusEnum"
    and "limit f = None" and "offset f = None" and "keeps_wildcards lc"
  shows "getPatients lc f d
     = Inr (orderBy_desc (\<lambda>r. num_of (col r ''registeredAt''))
              (filter (patient_matches lc f) (rows d Patients)))"
proof -
  have e: "\<not> ((case healthStatus f of Some s \<Rightarrow> s \<noteq> [] \<and> s \<notin> set healthStatusEnum | None \<Rightarrow> False)
            \<or> (case limit f of Some n \<Rightarrow> n < 0 | None \<Rightarrow> False)
            \<or> (case offset f of Some n \<Rightarrow> n < 0 | None \<Rightarrow> False))"
    using assms(3,4,5) by (auto split: option.splits)
  have m: "patient_matches lc f = (\<lambda>r.
      (case district f of None \<Rightarrow> True | Some s \<Rightarrow> sublist s (str_of (col r ''district'')))
      \<and> (case healthStatus f of None \<Rightarrow> True | Some s \<Rightarrow> col r ''healthStatus'' = JStr s)
      \<and> (case search f of
            None \<Rightarrow> True
          | Some s \<Rightarrow> sublist (map lc s) (map lc (str_of (col r ''name'')))
                      \<or> sublist (map lc s) (map lc (str_of (col r ''patientId'')))))"
    by (rule ext) (simp only: patient_matches_def)
  show ?thesis
    unfolding getPatients_def Let_def filter_if_conditions list_all_append
      district_condition[OF assms(1)] healthStatus_condition[OF assms(3)] search_condition[OF assms(2) assms(6)]
      m[symmetric]
    using e assms(4,5) by simp
qed

text \<open>
  C2, as the code has it: when the district and search filters hold none of the \<open>LIKE\<close>
  characters \<open>%\<close>, \<open>_\<close> and backslash and the health status, if given, is one of the
  four labels of the enum, \<open>getPatients\<close> (without limit and offset) returns exactly the
  patients that satisfy all the given filters together: the district contains the
  district filter, the health status equals the one given, and the search term occurs,
  case ignored, in the name or the patient id; a filter that is not given constrains
  nothing, and the result is in descending order of \<open>registeredAt\<close>. Case is ignored
  as the database's locale lowers letters, whatever that locale is, as long as its
  lowering leaves the three \<open>LIKE\<close> characters alone.
\<close>

theorem getPatients_filters_conjunction:
  assumes "plain (district f)" and "plain (search f)"
    and "case healthStatus f of None \<Rightarrow> True | Some s \<Rightarrow> s \<in> set healthStatusEnum"
    and "limit f = None" and "offset f = None" and "keeps_wildcards lc"
  shows "\<exists>rs. getPatients lc f d = Inr rs
            \<and> mset rs = mset (filter (patient_matches lc f) (rows d Patients))
            \<and> descending (\<lambda>r. num_of (col r ''registeredAt'')) rs"
  using getPatients_plain[OF assms]
  by (simp add: mset_orderBy_desc descending_orderBy_desc)

theorem getPatients_filters_conjunction_witness:
  "plain (district filters_ecole) \<and> plain (search filters_ecole) \<and> keeps_wildcards latin_lower
   \<and> getPatients latin_lower filters_ecole db_ecole
       = Inr [patient_row ''p3'' ''MW000002'' (CHR 0xC9 # ''cole'') ''Lyon'' ''healthy'' 30]
   \<and> filter (patient_matches latin_lower filters_ecole) (rows db_ecole Patients)
       = [patient_row ''p3'' ''MW000002'' (CHR 0xC9 # ''cole'') ''Lyon'' ''healthy'' 30]"
proof -
  have a: "plain (district filters_ecole)" by code_simp
  have b: "plain (search filters_ecole)" by code_simp
  have c: "case healthStatus filters_ecole of None \<Rightarrow> True | Some s \<Rightarrow> s \<in> set healthStatusEnum"
    by code_simp
  have l: "limit filters_ecole = None" by (simp add: filters_ecole_def)
  have o: "offset filters_ecole = None" by (simp add: filters_ecole_def)
  have k: "keeps_wildcards latin_lower" by (rule keeps_wildcards_latin)
  have m: "filter (patient_matches latin_lower filters_ecole) (rows db_ecole Patients)
       = [patient_row ''p3'' ''MW000002'' (CHR 0xC9 # ''cole'') ''Lyon'' ''healthy'' 30]"
    by code_simp
  have g: "getPatients latin_lower filters_ecole db_ecole
       = Inr [patient_row ''p3'' ''MW000002'' (CHR 0xC9 # ''cole'') ''Lyon'' ''healthy'' 30]"
    by code_simp
  show ?thesis
    using getPatients_filters_conjunction[OF a b c l o k, of db_ecole] a b k m g by simp
qed

text \<open>
  The claim as the specification words it fails in three ways, whatever the locale (here
  the C locale). The district filter \<open>_\<close> returns both sample patients, of Pune and of
  Kochi, though no district contains an underscore; an empty health status returns them
  too, though no patient has the empty status; and a health status that is no label of
  the enum makes the query fail.
\<close>

theorem getPatients_filters_counterexample:
  "getPatients ascii_lower (no_filters\<lparr>district := Some ''_''\<rparr>) db_two
     = Inr [patient_row ''p2'' ''MW000002'' ''Ravi'' ''Kochi'' ''critical'' 20,
            patient_row ''p1'' ''MW000001'' ''Asha'' ''Pune'' ''healthy'' 10]
   \<and> filter (patient_matches ascii_lower (no_filters\<lparr>district := Some ''_''\<rparr>)) (rows db_two Patients) = []
   \<and> getPatients ascii_lower (no_filters\<lparr>healthStatus := Some []\<rparr>) db_two
     = Inr [patient_row ''p2'' ''MW000002'' ''Ravi'' ''Kochi'' ''critical'' 20,
            patient_row ''p1'' ''MW000001'' ''Asha'' ''Pune'' ''healthy'' 10]
   \<and> filter (patient_matches ascii_lower (no_filters\<lparr>healthStatus := Some []\<rparr>)) (rows db_two Patients) = []
   \<and> getPatients ascii_lower (no_filters\<lparr>healthStatus := Some ''sick''\<rparr>) db_two = Inl InvalidInput"
  by code_simp

subsection \<open>Updating a patient that does not exist\<close>

lemma update_returning_no_row:
  assumes "\<not> list_ex w (rows d (tname t))"
    and "coerce_all (filter (\<lambda>c. map_of updates (ckey c) \<noteq> None) (columns t))
           (\<lambda>c. coerce e (ctype c) (col updates (ckey c))) = Some vals"
    and "filter (\<lambda>c. map_of updates (ckey c) \<noteq> None) (columns t) \<noteq> []"
  shows "update_returning e t updates w d = Inr ([], d)"
  using assms
  by (simp add: update_returning_def Let_def filter_none map_if_none put_rows_same clashes_def list_ex_iff)

lemma name_only_set_cols:
  "filter (\<lambda>c. map_of [(''name'', JStr n)] (ckey c) \<noteq> None) (columns patients)
     = [notNull (column_of PgText ''name'')]"
  by (simp add: patients_def column_of_def notNull_def primaryKey_def unique_col_def
      default_col_def references_def)

lemma name_only_coerce:
  "coerce_all [notNull (column_of PgText ''name'')]
       (\<lambda>c. coerce e (ctype c) (col [(''name'', JStr n)] (ckey c)))
     = Some [(''name'', JStr n)]"
  by (simp add: coerce_all_def column_of_def notNull_def col_def)

text \<open>
  C3: an update of a patient id that no row has. \<open>updatePatient\<close> with a new name finds no
  row, returns \<open>undefined\<close> and throws nothing, and \<open>PUT /api/patients/:id\<close> answers 200
  with no body, not 500; the table is unchanged.
\<close>

theorem update_missing_patient_answers_200:
  assumes "\<not> list_ex (\<lambda>r. col r ''id'' = JStr i) (rows d Patients)"
  shows "updatePatient e i [(''name'', JStr n)] d = Inr (None, d)
         \<and> route_put_patient e i [(''name'', JStr n)] d = (\<lparr>statusCode = 200, body = None\<rparr>, d)"
proof -
  have "\<not> list_ex (\<lambda>r. sql_eq (col r ''id'') (JStr i)) (rows d (tname patients))"
    using assms by (simp add: sql_eq_JStr patients_def)
  then have "update_returning e patients [(''name'', JStr n)] (\<lambda>r. sql_eq (col r ''id'') (JStr i)) d
      = Inr ([], d)"
    by (rule update_returning_no_row) (simp_all only: name_only_set_cols name_only_coerce, simp)
  then have u: "updatePatient e i [(''name'', JStr n)] d = Inr (None, d)"
    by (simp add: updatePatient_def first_row_def)
  then show ?thesis
    by (simp add: route_put_patient_def)
qed

theorem update_missing_patient_answers_200_witness:
  "\<not> list_ex (\<lambda>r. col r ''id'' = JStr ''p9'') (rows db_two Patients)
   \<and> route_put_patient env0 ''p9'' [(''name'', JStr ''Meera'')] db_two
       = (\<lparr>statusCode = 200, body = None\<rparr>, db_two)"
proof -
  have a: "\<not> list_ex (\<lambda>r. col r ''id'' = JStr ''p9'') (rows db_two Patients)"
    by (simp add: db_two_patients patient_row_id)
  show ?thesis
    using a update_missing_patient_answers_200[OF a, of env0 "''Meera''"] by simp
qed

subsection \<open>Rejected payloads\<close>

lemma post_handler_invalid:
  "zparse schema b = Inl (ZodError issues) \<Longrightarrow>
   post_handler schema create invalid failed b d
     = (\<lparr>statusCode = 400,
         body = Some (JObj [(''message'', JStr invalid), (''errors'', JArr (map issue_json issues))])\<rparr>, d)"
  by (simp add: post_handler_def respond_def)

lemma violating_zparse:
  assumes "violating schema v"
  shows "\<exists>err. zparse schema v = Inl err"
proof (cases v)
  case (JObj data)
  then obtain f where f: "f \<in> set schema" "violates data f"
    using assms by (auto simp: violating_def list_ex_iff)
  then have "field_issues data f \<noteq> []" by (simp add: field_issues_violates)
  then have "concat (map (field_issues data) schema) \<noteq> []" using f(1) by auto
  then show ?thesis using JObj by (simp add: zparse_def Let_def)
qed (simp_all add: zparse_def)

text \<open>
  C4: a \<open>POST\<close> body that violates its insert schema: it is no object, or one of the
  schema's fields is required and missing, null where null is not allowed, or of the
  wrong kind. Parsing fails with a ZodError of at least one issue; for an object body
  the issue paths are exactly the fields the body violates, all of them and not only
  the first. Whatever the storage function, the handler answers 400 with the issues as
  \<open>errors\<close> and leaves every table as it was, so the storage layer plays no part. This
  holds for each of the five \<open>POST\<close> routes with its own schema.
\<close>

theorem invalid_payload_400:
  assumes "violating schema reqBody"
  shows "\<exists>issues. zparse schema reqBody = Inl (ZodError issues) \<and> issues \<noteq> []
     \<and> (\<forall>data. reqBody = JObj data \<longrightarrow>
           path ` set issues = (\<lambda>f. [zkey f]) ` {f \<in> set schema. violates data f})
     \<and> (\<forall>create invalid failed.
           post_handler schema create invalid failed reqBody d
             = (\<lparr>statusCode = 400,
                 body = Some (JObj [(''message'', JStr invalid),
                                    (''errors'', JArr (map issue_json issues))])\<rparr>, d))
     \<and> (schema = insertPatientSchema \<longrightarrow>
           route_post_patients e reqBody d
             = (\<lparr>statusCode = 400,
                 body = Some (JObj [(''message'', JStr ''Invalid patient data''),
                                    (''errors'', JArr (map issue_json issues))])\<rparr>, d))
     \<and> (schema = insertHealthRecordSchema \<longrightarrow>
           route_post_health_records e reqBody d
             = (\<lparr>statusCode = 400,
                 body = Some (JObj [(''message'', JStr ''Invalid health record data''),
                                    (''errors'', JArr (map issue_json issues))])\<rparr>, d))
     \<and> (schema = insertDiseaseSchema \<longrightarrow>
           route_post_diseases e reqBody d
             = (\<lparr>statusCode = 400,
                 body = Some (JObj [(''message'', JStr ''Invalid disease data''),
                                    (''errors'', JArr (map issue_json issues))])\<rparr>, d))
     \<and> (schema = insertDiseaseCaseSchema \<longrightarrow>
           route_post_disease_cases e reqBody d
             = (\<lparr>statusCode = 400,
                 body = Some (JObj [(''message'', JStr ''Invalid disease case data''),
                                    (''errors'', JArr (map issue_json issues))])\<rparr>, d))
     \<and> (schema = insertHealthAlertSchema \<longrightarrow>
           route_post_health_alerts e reqBody d
             = (\<lparr>statusCode = 400,
                 body = Some (JObj [(''message'', JStr ''Invalid alert data''),
                                    (''errors'', JArr (map issue_json issues))])\<rparr>, d))"
proof -
  obtain err where z: "zparse schema reqBody = Inl err"
    using violating_zparse[OF assms] by blast
  obtain issues where i: "err = ZodError issues" "issues \<noteq> []"
    "\<forall>data. reqBody = JObj data \<longrightarrow>
        path ` set issues = (\<lambda>f. [zkey f]) ` {f \<in> set schema. violates data f}"
    using zparse_Inl[OF z] by blast
  have p: "zparse schema reqBody = Inl (ZodError issues)" using z i(1) by simp
  have h: "post_handler schema create invalid failed reqBody d
     = (\<lparr>statusCode = 400,
         body = Some (JObj [(''message'', JStr invalid), (''errors'', JArr (map issue_json issues))])\<rparr>, d)"
    for create invalid failed
    using p by (simp add: post_handler_invalid)
  show ?thesis
    using p i(2,3) h
    by (intro exI[of _ issues] conjI allI impI)
       (simp_all only: route_post_patients_def route_post_health_records_def route_post_diseases_def
          route_post_disease_cases_def route_post_health_alerts_def, simp_all)
qed

theorem invalid_payload_400_witness:
  "violating insertPatientSchema payload_mistyped
   \<and> {f \<in> set insertPatientSchema. violates (case payload_mistyped of JObj data \<Rightarrow> data) f}
       = {\<lparr>zkey = ''name'', zkind = ZString, zoptional = False, znullable = False\<rparr>,
          \<lparr>zkey = ''age'', zkind = ZInt, zoptional = False, znullable = False\<rparr>}
   \<and> route_post_patients env0 payload_mistyped db_two
       = (\<lparr>statusCode = 400,
           body = Some (JObj [(''message'', JStr ''Invalid patient data''),
                              (''errors'', JArr [JObj [(''code'', JStr ''invalid_type''),
                                                       (''path'', JArr [JStr ''name''])],
                                                 JObj [(''code'', JStr ''invalid_type''),
                                                       (''path'', JArr [JStr ''age''])]])])\<rparr>, db_two)"
proof -
  have v: "violating insertPatientSchema payload_mistyped"
    by code_simp
  have s: "{f \<in> set insertPatientSchema. violates (case payload_mistyped of JObj data \<Rightarrow> data) f}
       = {\<lparr>zkey = ''name'', zkind = ZString, zoptional = False, znullable = False\<rparr>,
          \<lparr>zkey = ''age'', zkind = ZInt, zoptional = False, znullable = False\<rparr>}"
    by code_simp
  have h: "zparse insertPatientSchema payload_mistyped
      = Inl (ZodError [\<lparr>path = [''name''], code = ''invalid_type''\<rparr>,
                       \<lparr>path = [''age''], code = ''invalid_type''\<rparr>])"
    by code_simp
  show ?thesis
    using v s h invalid_payload_400[OF v, where e = env0 and d = db_two]
    by (simp add: issue_json_def)
qed

subsection \<open>Disease cases with their patient and disease\<close>

lemma partners_set:
  "set (case filter p rs of [] \<Rightarrow> [(l, None)] | ms \<Rightarrow> map (\<lambda>m. (l, Some m)) ms)
     = (if list_ex p rs then (\<lambda>m. (l, Some m)) ` {r \<in> set rs. p r} else {(l, None)})"
proof (cases "filter p rs")
  case Nil
  then have "\<not> list_ex p rs" by (simp add: filter_empty_conv list_ex_iff)
  then show ?thesis using Nil by simp
next
  case (Cons a as)
  then have "a \<in> set (filter p rs)" by simp
  then have ex: "list_ex p rs" by (auto simp: list_ex_iff)
  have "set (map (\<lambda>m. (l, Some m)) (filter p rs)) = (\<lambda>m. (l, Some m)) ` {r \<in> set rs. p r}"
    by simp
  then show ?thesis using ex Cons by simp
qed

lemma leftJoin_member:
  "(l, m) \<in> set (leftJoin ls rs on) \<longleftrightarrow>
     l \<in> set ls \<and> (case m of None \<Rightarrow> \<not> list_ex (on l) rs | Some r \<Rightarrow> r \<in> set rs \<and> on l r)"
proof -
  have "(l, m) \<in> set (leftJoin ls rs on) \<longleftrightarrow>
      (\<exists>x \<in> set ls. (l, m) \<in> (if list_ex (on x) rs then (\<lambda>m. (x, Some m)) ` {r \<in> set rs. on x r} else {(x, None)}))"
    unfolding leftJoin_def set_concat set_map by (simp only: partners_set UN_iff image_iff bex_simps)
  also have "\<dots> \<longleftrightarrow> l \<in> set ls \<and> (case m of None \<Rightarrow> \<not> list_ex (on l) rs | Some r \<Rightarrow> r \<in> set rs \<and> on l r)"
    by (cases m) (auto simp: list_ex_iff split: if_splits)
  finally show ?thesis .
qed

lemma leftJoin_total: "l \<in> set ls \<Longrightarrow> \<exists>m. (l, m) \<in> set (leftJoin ls rs on)"
proof (cases "list_ex (on l) rs")
  case True
  assume "l \<in> set ls"
  moreover obtain r where "r \<in> set rs" "on l r" using True by (auto simp: list_ex_iff)
  ultimately have "(l, Some r) \<in> set (leftJoin ls rs on)" by (simp add: leftJoin_member)
  then show ?thesis ..
next
  case False
  assume "l \<in> set ls"
  then have "(l, None) \<in> set (leftJoin ls rs on)" using False by (simp add: leftJoin_member)
  then show ?thesis ..
qed









subsection \<open>Disease statistics\<close>

lemma getDiseaseStats_unsorted:
  assumes "primary_key_ok (rows d Diseases)"
    and "list_all (\<lambda>c. col c ''id'' \<noteq> JNull) (rows d DiseaseCases)"
  shows "getDiseaseStats d
     = map (\<lambda>nc. [(''name'', fst nc), (''count'', JNum (int (snd nc)))])
         (orderBy_desc (\<lambda>nc. int (snd nc))
            (map (\<lambda>ds. (col ds ''name'', case_count d ds)) (rows d Diseases)))"
proof -
  let ?on = "\<lambda>ds c. sql_eq (col ds ''id'') (col c ''diseaseId'')"
  let ?key = "\<lambda>r. (col r ''id'', col r ''name'')"
  let ?J = "leftJoin (rows d Diseases) (rows d DiseaseCases) ?on"
  have dk: "distinct (map ?key (rows d Diseases))"
    using assms(1) by (simp add: primary_key_ok_def inj_group_key)
  have g: "remdups (map (\<lambda>j. ?key (fst j)) ?J) = map ?key (rows d Diseases)"
    using dk by (rule group_keys)
  have cnt: "length (filter (\<lambda>j. ?key (fst j) = ?key ds \<and> ocol (snd j) ''id'' \<noteq> JNull) ?J)
        = case_count d ds" if ds: "ds \<in> set (rows d Diseases)" for ds
  proof -
    have nn: "col ds ''id'' \<noteq> JNull"
      using assms(1) ds by (simp add: primary_key_ok_def list_all_iff)
    have "length (filter (\<lambda>j. ?key (fst j) = ?key ds \<and> ocol (snd j) ''id'' \<noteq> JNull) ?J)
        = length (filter (?on ds) (rows d DiseaseCases))"
      using group_rows[OF dk ds, of "\<lambda>j. ocol (snd j) ''id'' \<noteq> JNull" "rows d DiseaseCases" ?on]
        partners_count[OF assms(2), where p = "?on ds" and l = ds] by simp
    also have "\<dots> = case_count d ds"
      unfolding case_count_def using nn
      by (intro arg_cong[where f = length] filter_cong refl) (auto simp: sql_eq_def)
    finally show ?thesis .
  qed
  have m: "map (\<lambda>g. (snd g, length (filter (\<lambda>j. ?key (fst j) = g \<and> ocol (snd j) ''id'' \<noteq> JNull) ?J)))
          (map ?key (rows d Diseases))
        = map (\<lambda>ds. (col ds ''name'', case_count d ds)) (rows d Diseases)"
    unfolding map_map comp_def by (rule map_cong[OF refl]) (simp only: cnt snd_conv)
  show ?thesis
    unfolding getDiseaseStats_def Let_def g m ..
qed

text \<open>
  C6: \<open>getDiseaseStats\<close> gives one \<open>{name, count}\<close> pair for each row of the diseases
  table (ids being a primary key), the count being the number of cases whose \<open>diseaseId\<close>
  is the disease's id, 0 when there is none; the pairs are in descending order of count.
\<close>

theorem getDiseaseStats_every_disease:
  assumes "primary_key_ok (rows d Diseases)"
    and "list_all (\<lambda>c. col c ''id'' \<noteq> JNull) (rows d DiseaseCases)"
  shows "mset (getDiseaseStats d) = mset (map (stat_of d) (rows d Diseases))
       \<and> length (getDiseaseStats d) = length (rows d Diseases)
       \<and> descending (\<lambda>r. num_of (col r ''count'')) (getDiseaseStats d)"
proof -
  let ?obj = "\<lambda>nc. [(''name'', fst nc), (''count'', JNum (int (snd nc)))]"
  let ?pairs = "map (\<lambda>ds. (col ds ''name'', case_count d ds)) (rows d Diseases)"
  have u: "getDiseaseStats d = map ?obj (orderBy_desc (\<lambda>nc. int (snd nc)) ?pairs)"
    using assms by (rule getDiseaseStats_unsorted)
  have "mset (getDiseaseStats d) = image_mset ?obj (mset ?pairs)"
    by (simp add: u mset_orderBy_desc)
  also have "\<dots> = mset (map (stat_of d) (rows d Diseases))"
    by (simp add: stat_of_def[abs_def] multiset.map_comp comp_def)
  finally have a: "mset (getDiseaseStats d) = mset (map (stat_of d) (rows d Diseases))" .
  have b: "length (getDiseaseStats d) = length (rows d Diseases)"
    by (simp add: u orderBy_desc_def)
  have "num_of (col (?obj nc) ''count'') = int (snd nc)" for nc :: "json \<times> nat"
    by (simp add: col_def num_of_def)
  then have c: "descending (\<lambda>r. num_of (col r ''count'')) (getDiseaseStats d)"
    by (simp add: u descending_map descending_orderBy_desc)
  show ?thesis using a b c by simp
qed

theorem getDiseaseStats_every_disease_witness:
  "primary_key_ok (rows db_cases Diseases)
   \<and> getDiseaseStats db_cases
       = [[(''name'', JStr ''Dengue''), (''count'', JNum 1)], [(''name'', JStr ''Flu''), (''count'', JNum 0)]]
   \<and> map (stat_of db_cases) (rows db_cases Diseases)
       = [[(''name'', JStr ''Flu''), (''count'', JNum 0)], [(''name'', JStr ''Dengue''), (''count'', JNum 1)]]"
proof -
  have p: "primary_key_ok (rows db_cases Diseases)"
    by code_simp
  have q: "list_all (\<lambda>c. col c ''id'' \<noteq> JNull) (rows db_cases DiseaseCases)"
    by code_simp
  have r: "getDiseaseStats db_cases
       = [[(''name'', JStr ''Dengue''), (''count'', JNum 1)], [(''name'', JStr ''Flu''), (''count'', JNum 0)]]"
    by code_simp
  have s: "map (stat_of db_cases) (rows db_cases Diseases)
       = [[(''name'', JStr ''Flu''), (''count'', JNum 0)], [(''name'', JStr ''Dengue''), (''count'', JNum 1)]]"
    by code_simp
  show ?thesis
    using getDiseaseStats_every_disease[OF p q] p r s by simp
qed

subsection \<open>Lookups by id\<close>

lemma getPatientById_None:
  "getPatientById i d = None \<longleftrightarrow> \<not> list_ex (\<lambda>r. col r ''id'' = JStr i) (rows d Patients)"
  by (simp add: getPatientById_def first_row_filter_None sql_eq_JStr)

lemma getPatientById_Some:
  "getPatientById i d = Some p \<Longrightarrow> p \<in> set (rows d Patients) \<and> col p ''id'' = JStr i"
  using first_row_filter_Some[of "\<lambda>r. col r ''id'' = JStr i" "rows d Patients" p]
  by (simp add: getPatientById_def sql_eq_JStr)

text \<open>
  C7: a lookup by an id (or user name) that no row has returns \<open>undefined\<close> (here
  \<open>None\<close>) and raises nothing: \<open>getPatientById\<close>, \<open>getHealthRecordById\<close>, \<open>getUser\<close> and
  \<open>getUserByUsername\<close> return \<open>None\<close> exactly when no row matches. \<open>GET /api/patients/:id\<close>
  then answers 404 with a body that has a \<open>message\<close> field, and 200 with the patient,
  a row of the table with that id, when there is one.
\<close>

theorem lookup_absent:
  "(getPatientById i d = None \<longleftrightarrow> \<not> list_ex (\<lambda>r. col r ''id'' = JStr i) (rows d Patients))
   \<and> (getHealthRecordById i d = None \<longleftrightarrow> \<not> list_ex (\<lambda>r. col r ''id'' = JStr i) (rows d HealthRecords))
   \<and> (getUser i d = None \<longleftrightarrow> \<not> list_ex (\<lambda>r. col r ''id'' = JStr i) (rows d Users))
   \<and> (getUserByUsername i d = None \<longleftrightarrow> \<not> list_ex (\<lambda>r. col r ''username'' = JStr i) (rows d Users))
   \<and> (getPatientById i d = None \<longrightarrow>
        route_get_patient i d = \<lparr>statusCode = 404, body = Some (JObj [(''message'', JStr ''Patient not found'')])\<rparr>)
   \<and> (\<forall>p. getPatientById i d = Some p \<longrightarrow>
        p \<in> set (rows d Patients) \<and> col p ''id'' = JStr i
        \<and> route_get_patient i d = \<lparr>statusCode = 200, body = Some (JObj p)\<rparr>)"
proof (intro conjI allI impI)
  show "getPatientById i d = None \<longleftrightarrow> \<not> list_ex (\<lambda>r. col r ''id'' = JStr i) (rows d Patients)"
    by (rule getPatientById_None)
  show "getHealthRecordById i d = None \<longleftrightarrow> \<not> list_ex (\<lambda>r. col r ''id'' = JStr i) (rows d HealthRecords)"
    by (simp add: getHealthRecordById_def first_row_filter_None sql_eq_JStr)
  show "getUser i d = None \<longleftrightarrow> \<not> list_ex (\<lambda>r. col r ''id'' = JStr i) (rows d Users)"
    by (simp add: getUser_def first_row_filter_None sql_eq_JStr)
  show "getUserByUsername i d = None \<longleftrightarrow> \<not> list_ex (\<lambda>r. col r ''username'' = JStr i) (rows d Users)"
    by (simp add: getUserByUsername_def first_row_filter_None sql_eq_JStr)
next
  assume "getPatientById i d = None"
  then show "route_get_patient i d = \<lparr>statusCode = 404, body = Some (JObj [(''message'', JStr ''Patient not found'')])\<rparr>"
    by (simp add: route_get_patient_def respond_def message_def)
next
  fix p assume p: "getPatientById i d = Some p"
  then show "p \<in> set (rows d Patients)" "col p ''id'' = JStr i"
    using getPatientById_Some by blast+
  show "route_get_patient i d = \<lparr>statusCode = 200, body = Some (JObj p)\<rparr>"
    using p by (simp add: route_get_patient_def respond_def)
qed

theorem lookup_absent_witness:
  "getPatientById ''p9'' db_two = None
   \<and> route_get_patient ''p9'' db_two = \<lparr>statusCode = 404, body = Some (JObj [(''message'', JStr ''Patient not found'')])\<rparr>
   \<and> getPatientById ''p2'' db_two = Some (patient_row ''p2'' ''MW000002'' ''Ravi'' ''Kochi'' ''critical'' 20)
   \<and> route_get_patient ''p2'' db_two = \<lparr>statusCode = 200, body = Some (JObj (patient_row ''p2'' ''MW000002'' ''Ravi'' ''Kochi'' ''critical'' 20))\<rparr>"
proof -
  have a: "\<not> list_ex (\<lambda>r. col r ''id'' = JStr ''p9'') (rows db_two Patients)"
    by (simp add: db_two_patients patient_row_id)
  have b: "getPatientById ''p2'' db_two = Some (patient_row ''p2'' ''MW000002'' ''Ravi'' ''Kochi'' ''critical'' 20)"
    by (simp add: getPatientById_def first_row_def sql_eq_def db_two_patients patient_row_id)
  show ?thesis
    using lookup_absent[of "''p9''" db_two] lookup_absent[of "''p2''" db_two] a b by simp
qed

subsection \<open>Health alerts\<close>

text \<open>
  C8: \<open>getHealthAlerts(true)\<close> returns exactly the alerts whose \<open>isActive\<close> is true;
  with \<open>activeOnly\<close> false or not passed it returns all alerts; both in descending order
  of \<open>createdAt\<close>. \<open>GET /api/health-alerts\<close> passes true exactly when the query parameter
  \<open>activeOnly\<close> is the string \<open>true\<close>.
\<close>

theorem getHealthAlerts_active_only:
  "mset (getHealthAlerts (Some True) d)
     = mset (filter (\<lambda>r. col r ''isActive'' = JBool True) (rows d HealthAlerts))
   \<and> mset (getHealthAlerts (Some False) d) = mset (rows d HealthAlerts)
   \<and> mset (getHealthAlerts None d) = mset (rows d HealthAlerts)
   \<and> descending (\<lambda>r. num_of (col r ''createdAt'')) (getHealthAlerts a d)
   \<and> route_get_health_alerts q d
       = \<lparr>statusCode = 200,
          body = Some (JArr (map JObj
                   (getHealthAlerts (Some (map_of q ''activeOnly'' = Some (QStr ''true''))) d)))\<rparr>"
proof (intro conjI)
  have "sql_eq v (JBool True) \<longleftrightarrow> v = JBool True" for v
    by (auto simp: sql_eq_def)
  then show "mset (getHealthAlerts (Some True) d)
     = mset (filter (\<lambda>r. col r ''isActive'' = JBool True) (rows d HealthAlerts))"
    by (simp add: getHealthAlerts_def mset_orderBy_desc)
  show "mset (getHealthAlerts (Some False) d) = mset (rows d HealthAlerts)"
    by (simp add: getHealthAlerts_def mset_orderBy_desc)
  show "mset (getHealthAlerts None d) = mset (rows d HealthAlerts)"
    by (simp add: getHealthAlerts_def mset_orderBy_desc)
  show "descending (\<lambda>r. num_of (col r ''createdAt'')) (getHealthAlerts a d)"
    by (simp add: getHealthAlerts_def descending_orderBy_desc)
  show "route_get_health_alerts q d
       = \<lparr>statusCode = 200,
          body = Some (JArr (map JObj
                   (getHealthAlerts (Some (map_of q ''activeOnly'' = Some (QStr ''true''))) d)))\<rparr>"
    by (simp add: route_get_health_alerts_def respond_def)
qed

lemma db_alerts_rows: "t_healthAlerts db_alerts =
     [alert_row ''a1'' ''Dengue'' (JBool True) 5, alert_row ''a2'' ''Flu'' (JBool False) 7]"
  by (simp add: db_alerts_def db_empty_def)

lemma alert_row_cols:
  "col (alert_row i t active at) ''isActive'' = active"
  "col (alert_row i t active at) ''createdAt'' = JNum at"
  by (simp_all add: alert_row_def col_def)

theorem getHealthAlerts_active_only_witness:
  "route_get_health_alerts [(''activeOnly'', QStr ''true'')] db_alerts
     = \<lparr>statusCode = 200, body = Some (JArr [JObj (alert_row ''a1'' ''Dengue'' (JBool True) 5)])\<rparr>
   \<and> route_get_health_alerts [(''activeOnly'', QStr ''1'')] db_alerts
     = \<lparr>statusCode = 200, body = Some (JArr [JObj (alert_row ''a2'' ''Flu'' (JBool False) 7),
                                               JObj (alert_row ''a1'' ''Dengue'' (JBool True) 5)])\<rparr>"
proof -
  have t: "getHealthAlerts (Some True) db_alerts = [alert_row ''a1'' ''Dengue'' (JBool True) 5]"
    by (simp add: getHealthAlerts_def orderBy_desc_def db_alerts_rows alert_row_cols sql_eq_def)
  have f: "getHealthAlerts (Some False) db_alerts
      = [alert_row ''a2'' ''Flu'' (JBool False) 7, alert_row ''a1'' ''Dengue'' (JBool True) 5]"
    by (simp add: getHealthAlerts_def orderBy_desc_def db_alerts_rows alert_row_cols num_of_def)
  show ?thesis
    using getHealthAlerts_active_only[of db_alerts None "[(''activeOnly'', QStr ''true'')]"]
      getHealthAlerts_active_only[of db_alerts None "[(''activeOnly'', QStr ''1'')]"] t f
    by simp
qed

subsection \<open>Falsy filters\<close>

text \<open>
  C9: in \<open>getPatients\<close> a falsy filter value is the same as no value: an empty \<open>district\<close>
  or \<open>search\<close> string, a \<open>limit\<close> of 0 and an \<open>offset\<close> of 0 each give the result of the
  call without that filter, whatever the other filters are; with all four falsy and no
  health status every patient is returned.
\<close>

theorem getPatients_falsy_filter:
  "getPatients lc (f\<lparr>district := Some []\<rparr>) d = getPatients lc (f\<lparr>district := None\<rparr>) d
   \<and> getPatients lc (f\<lparr>search := Some []\<rparr>) d = getPatients lc (f\<lparr>search := None\<rparr>) d
   \<and> getPatients lc (f\<lparr>limit := Some 0\<rparr>) d = getPatients lc (f\<lparr>limit := None\<rparr>) d
   \<and> getPatients lc (f\<lparr>offset := Some 0\<rparr>) d = getPatients lc (f\<lparr>offset := None\<rparr>) d
   \<and> getPatients lc \<lparr>district = Some [], healthStatus = None, search = Some [],
                   limit = Some 0, offset = Some 0\<rparr> d
       = Inr (orderBy_desc (\<lambda>r. num_of (col r ''registeredAt'')) (rows d Patients))"
  by (simp add: getPatients_def)

theorem getPatients_falsy_filter_witness:
  "getPatients ascii_lower (no_filters\<lparr>limit := Some 0\<rparr>) db_two
     = Inr [patient_row ''p2'' ''MW000002'' ''Ravi'' ''Kochi'' ''critical'' 20,
            patient_row ''p1'' ''MW000001'' ''Asha'' ''Pune'' ''healthy'' 10]
   \<and> getPatients ascii_lower (no_filters\<lparr>limit := Some 1\<rparr>) db_two
     = Inr [patient_row ''p2'' ''MW000002'' ''Ravi'' ''Kochi'' ''critical'' 20]"
proof -
  have reg: "num_of (col (patient_row i pid n dist hs at) ''registeredAt'') = at" for i pid n dist hs at
    by (simp add: patient_row_def col_def num_of_def)
  have "getPatients ascii_lower (no_filters\<lparr>limit := Some 0\<rparr>) db_two = getPatients ascii_lower (no_filters\<lparr>limit := None\<rparr>) db_two"
    using getPatients_falsy_filter[of ascii_lower no_filters db_two] by blast
  also have "\<dots> = Inr [patient_row ''p2'' ''MW000002'' ''Ravi'' ''Kochi'' ''critical'' 20,
            patient_row ''p1'' ''MW000001'' ''Asha'' ''Pune'' ''healthy'' 10]"
    by (simp add: getPatients_def no_filters_def orderBy_desc_def db_two_patients reg)
  finally have a: "getPatients ascii_lower (no_filters\<lparr>limit := Some 0\<rparr>) db_two
     = Inr [patient_row ''p2'' ''MW000002'' ''Ravi'' ''Kochi'' ''critical'' 20,
            patient_row ''p1'' ''MW000001'' ''Asha'' ''Pune'' ''healthy'' 10]" .
  have b: "getPatients ascii_lower (no_filters\<lparr>limit := Some 1\<rparr>) db_two
     = Inr [patient_row ''p2'' ''MW000002'' ''Ravi'' ''Kochi'' ''critical'' 20]"
    by (simp add: getPatients_def no_filters_def orderBy_desc_def db_two_patients reg)
  show ?thesis using a b by simp
qed

subsection \<open>System fields of a new patient\<close>

text \<open>
  C10: \<open>insertPatientSchema\<close> and the system fields \<open>id\<close>, \<open>patientId\<close> and
  \<open>registeredAt\<close>. A value the schema accepts has none of them. Supplying them changes
  nothing: the body with these keys removed parses to the same result, and
  \<open>POST /api/patients\<close> gives the same response and state for both. When the route answers
  201, the stored row has the id and the timestamp the database assigned and the
  identifier \<open>createPatient\<close> generated from the count.
\<close>

theorem system_fields_stripped:
  "(\<forall>data k. zparse insertPatientSchema reqBody = Inr data \<and> k \<in> set system_keys
        \<longrightarrow> map_of data k = None)
   \<and> zparse insertPatientSchema (JObj (filter (\<lambda>kv. fst kv \<notin> set system_keys) payload))
       = zparse insertPatientSchema (JObj payload)
   \<and> route_post_patients e (JObj (filter (\<lambda>kv. fst kv \<notin> set system_keys) payload)) d
       = route_post_patients e (JObj payload) d
   \<and> (\<forall>r d'. route_post_patients e reqBody d = (\<lparr>statusCode = 201, body = Some (JObj r)\<rparr>, d')
        \<longrightarrow> col r ''id'' = JStr (uuid e)
          \<and> col r ''patientId'' = JStr (''MW'' @ padStart 6 CHR ''0'' (toString (getPatientsCount d + 1)))
          \<and> col r ''registeredAt'' = JNum (now e))"
proof (intro conjI allI impI)
  fix data k assume "zparse insertPatientSchema reqBody = Inr data \<and> k \<in> set system_keys"
  then show "map_of data k = None" using zparse_insertPatient_no_system_key by blast
next
  show p: "zparse insertPatientSchema (JObj (filter (\<lambda>kv. fst kv \<notin> set system_keys) payload))
       = zparse insertPatientSchema (JObj payload)"
    using insertPatientSchema_no_system_keys by (rule zparse_filter_keys)
  show "route_post_patients e (JObj (filter (\<lambda>kv. fst kv \<notin> set system_keys) payload)) d
       = route_post_patients e (JObj payload) d"
    by (simp add: route_post_patients_def post_handler_def p)
next
  fix r d' assume a: "route_post_patients e reqBody d = (\<lparr>statusCode = 201, body = Some (JObj r)\<rparr>, d')"
  then obtain data where data: "zparse insertPatientSchema reqBody = Inr data"
    and cr: "createPatient e data d = Inr (r, d')"
    by (auto simp: route_post_patients_def post_handler_def respond_def message_def
        split: sum.splits error.splits)
  have "map_of data ''id'' = None" "map_of data ''registeredAt'' = None"
    using zparse_insertPatient_no_system_key[OF data] by (simp_all add: system_keys_def)
  then have "col r ''id'' = JStr (uuid e)
          \<and> col r ''patientId'' = JStr (''MW'' @ padStart 6 CHR ''0'' (toString (getPatientsCount d + 1)))
          \<and> col r ''registeredAt'' = JNum (now e)"
    using createPatient_system_fields[OF cr] by simp
  then show "col r ''id'' = JStr (uuid e)"
    and "col r ''patientId'' = JStr (''MW'' @ padStart 6 CHR ''0'' (toString (getPatientsCount d + 1)))"
    and "col r ''registeredAt'' = JNum (now e)"
    by simp_all
qed

theorem system_fields_stripped_witness:
  "route_post_patients env0 (JObj payload_forged) db_two
     = (\<lparr>statusCode = 201,
         body = Some (JObj (patient_row ''0b5e'' ''MW000003'' ''Asha'' ''Pune'' ''healthy'' 1000))\<rparr>,
        db_two\<lparr>t_patients := t_patients db_two
                  @ [patient_row ''0b5e'' ''MW000003'' ''Asha'' ''Pune'' ''healthy'' 1000]\<rparr>)"
proof -
  have f: "filter (\<lambda>kv. fst kv \<notin> set system_keys) payload_forged = payload_asha"
    by (simp add: payload_forged_def payload_asha_def system_keys_def)
  have "route_post_patients env0 (JObj payload_asha) db_two
     = (\<lparr>statusCode = 201,
         body = Some (JObj (patient_row ''0b5e'' ''MW000003'' ''Asha'' ''Pune'' ''healthy'' 1000))\<rparr>,
        db_two\<lparr>t_patients := t_patients db_two
                  @ [patient_row ''0b5e'' ''MW000003'' ''Asha'' ''Pune'' ''healthy'' 1000]\<rparr>)"
    by code_simp
  then show ?thesis
    using system_fields_stripped[of _ payload_forged env0 db_two] f by simp
qed

end
